theory Spec2Isabelle
  imports Main
begin

section \<open>The gateway of matterbridge: channel map, destination resolution, dispatch\<close>

text \<open>
  A shallow embedding of \<^verbatim>\<open>gateway/gateway.go\<close>. A Go string is a sequence of bytes and
  is modelled as \<^typ>\<open>string\<close>; a Go map is a partial function; \<^verbatim>\<open>os.Exit\<close> and a nil
  dereference are error values of the result type. Record fields carry a prefix naming
  their struct (\<open>ch_\<close> for \<^verbatim>\<open>config.ChannelInfo\<close>, \<open>cfg_\<close> for \<^verbatim>\<open>config.Bridge\<close>,
  \<open>msg_\<close> for \<^verbatim>\<open>config.Message\<close>, \<open>br_\<close> for \<^verbatim>\<open>bridge.Bridge\<close>, \<open>gw_\<close> for
  \<^verbatim>\<open>Gateway\<close>), because several structs share field names.
\<close>

subsection \<open>The functions of package strings that the gateway calls\<close>

text \<open>\<^verbatim>\<open>strings.HasPrefix(s, prefix)\<close>.\<close>

definition HasPrefix :: "string \<Rightarrow> string \<Rightarrow> bool" where
  "HasPrefix s p = (take (length p) s = p)"

text \<open>\<^verbatim>\<open>strings.Contains(s, substr)\<close>: \<open>substr\<close> occurs in \<open>s\<close> as a contiguous run.\<close>

fun Contains :: "string \<Rightarrow> string \<Rightarrow> bool" where
  "Contains [] sub = (sub = [])"
| "Contains (c # cs) sub = (HasPrefix (c # cs) sub \<or> Contains cs sub)"

text \<open>
  \<^verbatim>\<open>strings.Replace(s, old, new, 1)\<close>: the first occurrence of \<open>old\<close> is replaced; an
  empty \<open>old\<close> matches at the start of the string.
\<close>

fun Replace1 :: "string \<Rightarrow> string \<Rightarrow> string \<Rightarrow> string" where
  "Replace1 [] old new = (if old = [] then new else [])"
| "Replace1 (c # cs) old new =
     (if HasPrefix (c # cs) old then new @ drop (length old) (c # cs)
      else c # Replace1 cs old new)"

subsection \<open>Data model\<close>

text \<open>
  \<^verbatim>\<open>config.ChannelInfo\<close>, with the fields the gateway reads and writes. The options are
  opaque to the gateway and stay a type parameter. \<^verbatim>\<open>SameChannel\<close> is a
  \<^verbatim>\<open>map[string]bool\<close>; reading a key that is absent gives \<^verbatim>\<open>false\<close> in Go.
\<close>

record 'o ChannelInfo =
  ch_Name :: string
  ch_Direction :: string
  ch_ID :: string
  ch_Options :: 'o
  ch_Account :: string
  ch_SameChannel :: "string \<rightharpoonup> bool"

text \<open>\<^verbatim>\<open>config.Bridge\<close>: one channel entry of the gateway configuration.\<close>

record 'o CfgBridge =
  cfg_Account :: string
  cfg_Channel :: string
  cfg_Options :: 'o
  cfg_SameChannel :: bool

text \<open>
  \<^verbatim>\<open>config.Message\<close>, with the fields that the gateway names. The payload
  \<^verbatim>\<open>Extra\<close> is opaque here.
\<close>

record 'x Message =
  msg_Text :: string
  msg_Channel :: string
  msg_Username :: string
  msg_Avatar :: string
  msg_Account :: string
  msg_Event :: string
  msg_Protocol :: string
  msg_Gateway :: string
  msg_ParentID :: string
  msg_ID :: string
  msg_Extra :: 'x

text \<open>
  \<^verbatim>\<open>bridge.Bridge\<close>: the identity of a connection and its typed configuration
  accessors \<^verbatim>\<open>GetBool\<close>, \<^verbatim>\<open>GetString\<close> and \<^verbatim>\<open>GetStringSlice2D\<close>.
\<close>

record Bridge =
  br_Account :: string
  br_Protocol :: string
  br_Name :: string
  br_GetBool :: "string \<Rightarrow> bool"
  br_GetString :: "string \<Rightarrow> string"
  br_GetStringSlice2D :: "string \<Rightarrow> string list list"

text \<open>\<^verbatim>\<open>BrMsgID\<close>: the identity of one copy sent to a destination.\<close>

record BrMsgID =
  bm_br :: Bridge
  bm_ID :: string
  bm_ChannelID :: string

text \<open>
  The cache \<^verbatim>\<open>gw.Messages\<close> (an LRU cache of the library golang-lru) is the list of
  its entries from the oldest to the newest, the order in which \<^verbatim>\<open>Keys()\<close> returns
  them. Its keys are distinct.
\<close>

type_synonym Cache = "(string \<times> BrMsgID list) list"

text \<open>
  \<^verbatim>\<open>Gateway\<close>, with the state that the functions below read and write: its name, the
  channel map, the connections by account, the cache, and the path of the script of
  the scripting hook (\<^verbatim>\<open>BridgeValues().General.TengoModifyMessage\<close>).
\<close>

record 'o Gateway =
  gw_Name :: string
  gw_Channels :: "string \<rightharpoonup> 'o ChannelInfo"
  gw_Bridges :: "string \<rightharpoonup> Bridge"
  gw_Messages :: Cache
  gw_TengoModifyMessage :: string

definition apiProtocol :: string where
  "apiProtocol = ''api''"

text \<open>
  Modelled from the spec: the event kind join/leave, \<^verbatim>\<open>config.EventJoinLeave\<close>, is a
  string constant that package config declares, outside the source at hand. The code
  only compares the event of a message with it, and no proof below depends on the
  string chosen here.
\<close>

definition EventJoinLeave :: string where
  "EventJoinLeave = ''join_leave''"

text \<open>
  Modelled from the spec: the event kind avatar-download,
  \<^verbatim>\<open>config.EventAvatarDownload\<close>, is a string constant of package config as well.
\<close>

definition EventAvatarDownload :: string where
  "EventAvatarDownload = ''avatar_download''"

subsection \<open>Small helpers of the gateway\<close>

definition getChannelID :: "'x Message \<Rightarrow> string" where
  "getChannelID msg = msg_Channel msg @ msg_Account msg"

definition isAPI :: "string \<Rightarrow> bool" where
  "isAPI account = HasPrefix account ''api.''"

text \<open>
  \<^verbatim>\<open>getProtocol\<close>: \<^verbatim>\<open>strings.Split(msg.Account, ".")[0]\<close>, the part of the account
  before its first dot (the whole account when it has none).
\<close>

definition getProtocol :: "'x Message \<Rightarrow> string" where
  "getProtocol msg = takeWhile (\<lambda>c. c \<noteq> CHR ''.'') (msg_Account msg)"

definition validGatewayDest :: "'o Gateway \<Rightarrow> 'x Message \<Rightarrow> bool" where
  "validGatewayDest gw msg = (msg_Gateway msg = gw_Name gw)"

subsection \<open>The channel map builder\<close>

text \<open>
  \<^verbatim>\<open>mapChannelConfig\<close> ends the process with \<^verbatim>\<open>os.Exit(1)\<close> on two shapes of
  configuration; the model returns \<open>Inl\<close> of the reason there.
\<close>

datatype fatal = MattermostHash string | ZulipNoTopic string string

text \<open>
  The loop prologue: the entry as the loop body sees it after the API and IRC
  rewrites of its channel name. \<^verbatim>\<open>strings.ToLower\<close> maps Unicode letters and is a
  parameter (\<open>lower\<close>).
\<close>

definition normalise :: "(string \<Rightarrow> string) \<Rightarrow> 'o CfgBridge \<Rightarrow> 'o CfgBridge" where
  "normalise lower br0 =
     (let br1 = (if isAPI (cfg_Account br0) then br0\<lparr>cfg_Channel := apiProtocol\<rparr> else br0)
      in if HasPrefix (cfg_Account br1) ''irc.''
         then br1\<lparr>cfg_Channel := lower (cfg_Channel br1)\<rparr> else br1)"

text \<open>The ID an entry resolves to: \<^verbatim>\<open>ID := br.Channel + br.Account\<close>.\<close>

definition entryID :: "(string \<Rightarrow> string) \<Rightarrow> 'o CfgBridge \<Rightarrow> string" where
  "entryID lower br0 = (let br = normalise lower br0 in cfg_Channel br @ cfg_Account br)"

text \<open>One iteration of the loop of \<^verbatim>\<open>mapChannelConfig\<close>.\<close>

definition mapChannelEntry ::
  "(string \<Rightarrow> string) \<Rightarrow> string \<Rightarrow> 'o Gateway \<Rightarrow> 'o CfgBridge \<Rightarrow> fatal + 'o Gateway" where
  "mapChannelEntry lower direction gw br0 =
     (let br = normalise lower br0 in
      if HasPrefix (cfg_Account br) ''mattermost.'' \<and> HasPrefix (cfg_Channel br) ''#''
      then Inl (MattermostHash (cfg_Channel br))
      else if HasPrefix (cfg_Account br) ''zulip.'' \<and> \<not> Contains (cfg_Channel br) ''/topic:''
      then Inl (ZulipNoTopic (cfg_Channel br) (cfg_Account br))
      else
        let ident = cfg_Channel br @ cfg_Account br;
            channel =
              (case gw_Channels gw ident of
                 None \<Rightarrow>
                   \<lparr>ch_Name = cfg_Channel br, ch_Direction = direction, ch_ID = ident,
                    ch_Options = cfg_Options br, ch_Account = cfg_Account br,
                    ch_SameChannel = [gw_Name gw \<mapsto> cfg_SameChannel br]\<rparr>
               | Some c \<Rightarrow>
                   if ch_Direction c \<noteq> direction then c\<lparr>ch_Direction := ''inout''\<rparr> else c);
            channel' = channel\<lparr>ch_SameChannel :=
                         (ch_SameChannel channel)(gw_Name gw \<mapsto> cfg_SameChannel br)\<rparr>
        in Inr (gw\<lparr>gw_Channels := (gw_Channels gw)(ident \<mapsto> channel')\<rparr>))"

fun mapChannelConfig ::
  "(string \<Rightarrow> string) \<Rightarrow> 'o Gateway \<Rightarrow> 'o CfgBridge list \<Rightarrow> string \<Rightarrow> fatal + 'o Gateway" where
  "mapChannelConfig lower gw [] direction = Inr gw"
| "mapChannelConfig lower gw (br # cfg) direction =
     (case mapChannelEntry lower direction gw br of
        Inl e \<Rightarrow> Inl e
      | Inr gw' \<Rightarrow> mapChannelConfig lower gw' cfg direction)"

text \<open>
  \<^verbatim>\<open>mapChannels\<close> calls the builder for \<open>in\<close>, \<open>out\<close> and \<open>inout\<close>, in this order.
  \<open>mapChannelConfigs\<close> runs any sequence of such calls.
\<close>

fun mapChannelConfigs ::
  "(string \<Rightarrow> string) \<Rightarrow> 'o Gateway \<Rightarrow> ('o CfgBridge list \<times> string) list \<Rightarrow> fatal + 'o Gateway" where
  "mapChannelConfigs lower gw [] = Inr gw"
| "mapChannelConfigs lower gw ((cfg, direction) # calls) =
     (case mapChannelConfig lower gw cfg direction of
        Inl e \<Rightarrow> Inl e
      | Inr gw' \<Rightarrow> mapChannelConfigs lower gw' calls)"

definition mapChannels ::
  "(string \<Rightarrow> string) \<Rightarrow> 'o Gateway \<Rightarrow> 'o CfgBridge list \<Rightarrow> 'o CfgBridge list \<Rightarrow>
   'o CfgBridge list \<Rightarrow> fatal + 'o Gateway" where
  "mapChannels lower gw cfgIn cfgOut cfgInOut =
     mapChannelConfigs lower gw [(cfgIn, ''in''), (cfgOut, ''out''), (cfgInOut, ''inout'')]"

text \<open>The direction of the descriptor stored under a key, if there is one.\<close>

definition dirOf :: "'o Gateway \<Rightarrow> string \<Rightarrow> string option" where
  "dirOf gw k = map_option ch_Direction (gw_Channels gw k)"

subsection \<open>Directions only ever merge towards inout\<close>

lemma mapChannelEntry_dirOf:
  assumes "mapChannelEntry lower d gw br = Inr gw'"
  shows "dirOf gw' k =
           (if k = entryID lower br
            then (case dirOf gw k of
                    None \<Rightarrow> Some d
                  | Some d0 \<Rightarrow> if d0 \<noteq> d then Some ''inout'' else Some d0)
            else dirOf gw k)"
  using assms
  by (auto simp: mapChannelEntry_def entryID_def dirOf_def Let_def
           split: if_splits option.splits)

lemma mapChannelEntry_keeps_inout:
  assumes "mapChannelEntry lower d gw br = Inr gw'" and "dirOf gw k = Some ''inout''"
  shows "dirOf gw' k = Some ''inout''"
  using mapChannelEntry_dirOf [OF assms(1), of k] assms(2) by auto

lemma mapChannelConfig_keeps_inout:
  assumes "mapChannelConfig lower gw cfg d = Inr gw'" and "dirOf gw k = Some ''inout''"
  shows "dirOf gw' k = Some ''inout''"
  using assms
proof (induction cfg arbitrary: gw)
  case Nil
  then show ?case by simp
next
  case (Cons br cfg)
  then obtain gw1 where s: "mapChannelEntry lower d gw br = Inr gw1"
    and r: "mapChannelConfig lower gw1 cfg d = Inr gw'"
    by (auto split: sum.splits)
  from mapChannelEntry_keeps_inout [OF s Cons.prems(2)] Cons.IH [OF r]
  show ?case by simp
qed

lemma mapChannelConfigs_keeps_inout:
  assumes "mapChannelConfigs lower gw calls = Inr gw'" and "dirOf gw k = Some ''inout''"
  shows "dirOf gw' k = Some ''inout''"
  using assms
proof (induction calls arbitrary: gw)
  case Nil
  then show ?case by simp
next
  case (Cons c calls)
  obtain cfg d where c: "c = (cfg, d)" by (cases c)
  with Cons.prems obtain gw1 where s: "mapChannelConfig lower gw cfg d = Inr gw1"
    and r: "mapChannelConfigs lower gw1 calls = Inr gw'"
    by (auto split: sum.splits)
  from mapChannelConfig_keeps_inout [OF s Cons.prems(2)] Cons.IH [OF r]
  show ?case by simp
qed

text \<open>
  For the proofs, a run of the builder is the run of its loop body over the sequence
  of (entry, direction) pairs that the calls go through.
\<close>

fun runEntries ::
  "(string \<Rightarrow> string) \<Rightarrow> 'o Gateway \<Rightarrow> ('o CfgBridge \<times> string) list \<Rightarrow> fatal + 'o Gateway" where
  "runEntries lower gw [] = Inr gw"
| "runEntries lower gw ((br, direction) # xs) =
     (case mapChannelEntry lower direction gw br of
        Inl e \<Rightarrow> Inl e
      | Inr gw' \<Rightarrow> runEntries lower gw' xs)"

definition flatten :: "('o CfgBridge list \<times> string) list \<Rightarrow> ('o CfgBridge \<times> string) list" where
  "flatten calls = concat (map (\<lambda>(cfg, d). map (\<lambda>br. (br, d)) cfg) calls)"

text \<open>An instance for the examples: a gateway with nothing configured, and one entry.\<close>

definition ex_empty_gw :: "unit Gateway" where
  "ex_empty_gw = \<lparr>gw_Name = ''gw'', gw_Channels = Map.empty, gw_Bridges = Map.empty,
                  gw_Messages = [], gw_TengoModifyMessage = []\<rparr>"

definition ex_entry :: "unit CfgBridge" where
  "ex_entry = \<lparr>cfg_Account = ''slack.a'', cfg_Channel = ''general'', cfg_Options = (),
               cfg_SameChannel = False\<rparr>"

lemma runEntries_append:
  "runEntries lower gw (xs @ ys) =
     (case runEntries lower gw xs of Inl e \<Rightarrow> Inl e | Inr gw' \<Rightarrow> runEntries lower gw' ys)"
  by (induction xs arbitrary: gw) (auto split: sum.splits)

lemma mapChannelConfig_runEntries:
  "mapChannelConfig lower gw cfg d = runEntries lower gw (map (\<lambda>br. (br, d)) cfg)"
  by (induction cfg arbitrary: gw) (auto split: sum.splits)

lemma mapChannelConfigs_runEntries:
  "mapChannelConfigs lower gw calls = runEntries lower gw (flatten calls)"
proof (induction calls arbitrary: gw)
  case Nil
  then show ?case by (simp add: flatten_def)
next
  case (Cons c calls)
  obtain cfg d where c: "c = (cfg, d)" by (cases c)
  have "flatten (c # calls) = map (\<lambda>br. (br, d)) cfg @ flatten calls"
    by (simp add: flatten_def c)
  then show ?case
    using Cons.IH
    by (simp add: c runEntries_append mapChannelConfig_runEntries split: sum.splits)
qed

lemma set_flatten:
  "(br, d) \<in> set (flatten calls) \<longleftrightarrow> (\<exists>cfg. (cfg, d) \<in> set calls \<and> br \<in> set cfg)"
  by (auto simp: flatten_def)

lemma runEntries_keeps_inout:
  assumes "runEntries lower gw xs = Inr gw'" and "dirOf gw k = Some ''inout''"
  shows "dirOf gw' k = Some ''inout''"
  using assms
proof (induction xs arbitrary: gw)
  case Nil
  then show ?case by simp
next
  case (Cons x xs)
  obtain br d where x: "x = (br, d)" by (cases x)
  with Cons.prems obtain gw1 where s: "mapChannelEntry lower d gw br = Inr gw1"
    and r: "runEntries lower gw1 xs = Inr gw'"
    by (auto split: sum.splits)
  from mapChannelEntry_keeps_inout [OF s Cons.prems(2)] Cons.IH [OF r]
  show ?case by simp
qed

text \<open>
  A descriptor of direction \<open>d0\<close> becomes \<open>inout\<close> as soon as an entry of another
  direction reaches it.
\<close>

lemma runEntries_other_direction:
  assumes "runEntries lower gw xs = Inr gw'" and "dirOf gw k = Some d0"
    and "(br, d) \<in> set xs" and "entryID lower br = k" and "d \<noteq> d0"
  shows "dirOf gw' k = Some ''inout''"
  using assms(1,2,3)
proof (induction xs arbitrary: gw)
  case Nil
  then show ?case by simp
next
  case (Cons x xs)
  obtain br' d' where x: "x = (br', d')" by (cases x)
  with Cons.prems obtain gw1 where s: "mapChannelEntry lower d' gw br' = Inr gw1"
    and r: "runEntries lower gw1 xs = Inr gw'"
    by (auto split: sum.splits)
  note eff = mapChannelEntry_dirOf [OF s, of k]
  show ?case
  proof (cases "entryID lower br' = k \<and> d' \<noteq> d0")
    case True
    with eff Cons.prems(2) have "dirOf gw1 k = Some ''inout''" by auto
    with r show ?thesis by (rule runEntries_keeps_inout)
  next
    case False
    with eff Cons.prems(2) have keep: "dirOf gw1 k = Some d0" by auto
    from False assms(4,5) x have "(br, d) \<noteq> x" by auto
    with Cons.prems(3) have "(br, d) \<in> set xs" by auto
    with Cons.IH [OF r keep] show ?thesis by simp
  qed
qed

lemma runEntries_differing_directions:
  assumes "runEntries lower gw xs = Inr gw'"
    and "(br1, d1) \<in> set xs" and "(br2, d2) \<in> set xs"
    and "entryID lower br1 = k" and "entryID lower br2 = k" and "d1 \<noteq> d2"
  shows "dirOf gw' k = Some ''inout''"
  using assms(1,2,3)
proof (induction xs arbitrary: gw)
  case Nil
  then show ?case by simp
next
  case (Cons x xs)
  obtain br' d' where x: "x = (br', d')" by (cases x)
  with Cons.prems obtain gw1 where s: "mapChannelEntry lower d' gw br' = Inr gw1"
    and r: "runEntries lower gw1 xs = Inr gw'"
    by (auto split: sum.splits)
  note eff = mapChannelEntry_dirOf [OF s, of k]
  show ?case
  proof (cases "entryID lower br' = k")
    case False
    with assms(4,5) x have "(br1, d1) \<noteq> x" "(br2, d2) \<noteq> x" by auto
    with Cons.prems(2,3) have "(br1, d1) \<in> set xs" "(br2, d2) \<in> set xs" by auto
    with Cons.IH [OF r] show ?thesis by simp
  next
    case True
    with eff have now: "dirOf gw1 k = Some d' \<or> dirOf gw1 k = Some ''inout''"
      by (auto split: option.splits if_splits)
    show ?thesis
    proof (cases "dirOf gw1 k = Some ''inout''")
      case True
      with r show ?thesis by (rule runEntries_keeps_inout)
    next
      case False
      with now have cur: "dirOf gw1 k = Some d'" by simp
      show ?thesis
      proof (cases "d1 = d'")
        case True
        with assms(6) have ne: "d2 \<noteq> d'" by simp
        with x have "(br2, d2) \<noteq> x" by auto
        with Cons.prems(3) have "(br2, d2) \<in> set xs" by auto
        from runEntries_other_direction [OF r cur this assms(5) ne] show ?thesis .
      next
        case False
        with x have "(br1, d1) \<noteq> x" by auto
        with Cons.prems(2) have "(br1, d1) \<in> set xs" by auto
        from runEntries_other_direction [OF r cur this assms(4) False] show ?thesis .
      qed
    qed
  qed
qed

subsection \<open>Claim C1\<close>

text \<open>
  C1. For every sequence of calls of the channel-map builder \<^verbatim>\<open>mapChannelConfig\<close> (in
  any order of the directions) that runs to its end: when two entries resolve to the
  same ID (channel name followed by account) and come with differing directions, the
  descriptor stored under that ID has direction \<open>inout\<close>; and a descriptor whose
  direction is \<open>inout\<close> still has direction \<open>inout\<close> after any further call of the
  builder, so a later entry never downgrades it.
\<close>

theorem merged_direction_is_inout:
  "(mapChannelConfigs lower gw0 calls = Inr gw \<and>
      (cfg1, d1) \<in> set calls \<and> (cfg2, d2) \<in> set calls \<and>
      br1 \<in> set cfg1 \<and> br2 \<in> set cfg2 \<and>
      entryID lower br1 = entryID lower br2 \<and> d1 \<noteq> d2
      \<longrightarrow> dirOf gw (entryID lower br1) = Some ''inout'')
   \<and>
   (mapChannelConfig lower gw1 cfg d = Inr gw2 \<and> dirOf gw1 k = Some ''inout''
      \<longrightarrow> dirOf gw2 k = Some ''inout'')"
proof (intro conjI impI)
  assume a: "mapChannelConfigs lower gw0 calls = Inr gw \<and>
      (cfg1, d1) \<in> set calls \<and> (cfg2, d2) \<in> set calls \<and>
      br1 \<in> set cfg1 \<and> br2 \<in> set cfg2 \<and>
      entryID lower br1 = entryID lower br2 \<and> d1 \<noteq> d2"
  then have run: "runEntries lower gw0 (flatten calls) = Inr gw"
    by (simp add: mapChannelConfigs_runEntries)
  from a have m1: "(br1, d1) \<in> set (flatten calls)" and m2: "(br2, d2) \<in> set (flatten calls)"
    by (auto simp: set_flatten)
  from a have same: "entryID lower br2 = entryID lower br1" and ne: "d1 \<noteq> d2" by simp_all
  from runEntries_differing_directions [OF run m1 m2 refl same ne]
  show "dirOf gw (entryID lower br1) = Some ''inout''" .
next
  assume "mapChannelConfig lower gw1 cfg d = Inr gw2 \<and> dirOf gw1 k = Some ''inout''"
  then show "dirOf gw2 k = Some ''inout''"
    using mapChannelConfig_keeps_inout by blast
qed

text \<open>
  An instance: the channel \<open>general\<close> of the account \<open>slack.a\<close> is configured once as
  \<open>in\<close> and once as \<open>out\<close>, and a further \<open>out\<close> call follows.
\<close>

theorem merged_direction_is_inout_witness:
  "\<exists>gw gw2.
     mapChannelConfigs (\<lambda>s. s) ex_empty_gw [([ex_entry], ''in''), ([ex_entry], ''out'')] = Inr gw \<and>
     dirOf gw ''generalslack.a'' = Some ''inout'' \<and>
     mapChannelConfig (\<lambda>s. s) gw [ex_entry] ''out'' = Inr gw2 \<and>
     dirOf gw2 ''generalslack.a'' = Some ''inout''"
proof -
  let ?calls = "[([ex_entry], ''in''), ([ex_entry], ''out'')]"
  have id: "entryID (\<lambda>s. s) ex_entry = ''generalslack.a''"
    by (simp add: entryID_def normalise_def ex_entry_def isAPI_def HasPrefix_def)
  obtain gw where run: "mapChannelConfigs (\<lambda>s. s) ex_empty_gw ?calls = Inr gw"
    by (simp add: mapChannelEntry_def normalise_def ex_entry_def ex_empty_gw_def
          isAPI_def HasPrefix_def Let_def)
  obtain gw2 where run2: "mapChannelConfig (\<lambda>s. s) gw [ex_entry] ''out'' = Inr gw2"
    by (simp add: mapChannelEntry_def normalise_def ex_entry_def
          isAPI_def HasPrefix_def Let_def)
  have ne: "''in'' \<noteq> ''out''" by simp
  note inst = merged_direction_is_inout [of "\<lambda>s. s" ex_empty_gw ?calls gw
      "[ex_entry]" "''in''" "[ex_entry]" "''out''" ex_entry ex_entry gw "[ex_entry]" "''out''" gw2
      "''generalslack.a''"]
  from inst run id ne have first: "dirOf gw ''generalslack.a'' = Some ''inout''" by simp
  with inst run2 have "dirOf gw2 ''generalslack.a'' = Some ''inout''" by simp
  with run run2 first show ?thesis by blast
qed

section \<open>Destination resolution\<close>

text \<open>
  A \<^verbatim>\<open>range\<close> over a Go map visits every key once, in an order the runtime chooses.
  The order is a parameter of the model: the list of the keys as they are visited.
  \<open>rangeValues\<close> gives the values met on the way, \<open>visits\<close> says that a list of keys
  is such an order.
\<close>

fun rangeValues :: "('k \<rightharpoonup> 'v) \<Rightarrow> 'k list \<Rightarrow> 'v list" where
  "rangeValues m [] = []"
| "rangeValues m (k # ks) =
     (case m k of None \<Rightarrow> rangeValues m ks | Some v \<Rightarrow> v # rangeValues m ks)"

definition visits :: "('k \<rightharpoonup> 'v) \<Rightarrow> 'k list \<Rightarrow> bool" where
  "visits m ks \<longleftrightarrow> distinct ks \<and> set ks = dom m"

text \<open>\<^verbatim>\<open>channel.SameChannel[name]\<close>: \<^verbatim>\<open>false\<close> when the map has no such key.\<close>

definition sameChannel :: "'o ChannelInfo \<Rightarrow> string \<Rightarrow> bool" where
  "sameChannel channel name = (case ch_SameChannel channel name of None \<Rightarrow> False | Some b \<Rightarrow> b)"

text \<open>
  The loop of the join/leave special case (\<^verbatim>\<open>discord join/leave is for the whole
  bridge\<close>).
\<close>

fun joinLeaveLoop ::
  "'o Gateway \<Rightarrow> 'x Message \<Rightarrow> Bridge \<Rightarrow> 'o ChannelInfo list \<Rightarrow> 'o ChannelInfo list" where
  "joinLeaveLoop gw msg dest [] = []"
| "joinLeaveLoop gw msg dest (channel # rest) =
     (if ch_Account channel = br_Account dest \<and> Contains (ch_Direction channel) ''out'' \<and>
         validGatewayDest gw msg
      then channel # joinLeaveLoop gw msg dest rest
      else joinLeaveLoop gw msg dest rest)"

text \<open>
  The loop that looks the source channel up (\<^verbatim>\<open>if source channel is in only, do
  nothing\<close>): \<open>True\<close> when it makes \<^verbatim>\<open>getDestChannel\<close> return at once.
\<close>

fun sourceLoop :: "string \<Rightarrow> 'o ChannelInfo list \<Rightarrow> bool" where
  "sourceLoop origin [] = False"
| "sourceLoop origin (channel # rest) =
     (if ch_ID channel = origin
      then (if \<not> Contains (ch_Direction channel) ''in'' then True else sourceLoop origin rest)
      else sourceLoop origin rest)"

text \<open>The last loop, which collects the destinations in the order of the visit.\<close>

fun destLoop ::
  "'o Gateway \<Rightarrow> 'x Message \<Rightarrow> Bridge \<Rightarrow> 'o ChannelInfo list \<Rightarrow> 'o ChannelInfo list" where
  "destLoop gw msg dest [] = []"
| "destLoop gw msg dest (channel # rest) =
     (if gw_Channels gw (getChannelID msg) = None then destLoop gw msg dest rest
      else if sameChannel channel (msg_Gateway msg)
      then (if msg_Channel msg = ch_Name channel \<and> msg_Account msg \<noteq> br_Account dest
            then channel # destLoop gw msg dest rest
            else destLoop gw msg dest rest)
      else if Contains (ch_Direction channel) ''out'' \<and> ch_Account channel = br_Account dest \<and>
              validGatewayDest gw msg
      then channel # destLoop gw msg dest rest
      else destLoop gw msg dest rest)"

text \<open>
  \<^verbatim>\<open>getDestChannel\<close>. \<open>ks1\<close> is the order of the first \<^verbatim>\<open>range\<close> that runs (the
  special case or the source lookup), \<open>ks2\<close> the order of the last loop.
\<close>

definition joinLeaveCase :: "'x Message \<Rightarrow> bool" where
  "joinLeaveCase msg \<longleftrightarrow>
     msg_Event msg = EventJoinLeave \<and> getProtocol msg = ''discord'' \<and> msg_Channel msg = []"

definition getDestChannel ::
  "'o Gateway \<Rightarrow> string list \<Rightarrow> string list \<Rightarrow> 'x Message \<Rightarrow> Bridge \<Rightarrow> 'o ChannelInfo list" where
  "getDestChannel gw ks1 ks2 msg dest =
     (if msg_Protocol msg = apiProtocol \<and> gw_Name gw \<noteq> msg_Gateway msg then []
      else if joinLeaveCase msg
      then joinLeaveLoop gw msg dest (rangeValues (gw_Channels gw) ks1)
      else if sourceLoop (getChannelID msg) (rangeValues (gw_Channels gw) ks1) then []
      else destLoop gw msg dest (rangeValues (gw_Channels gw) ks2))"

text \<open>
  The channel map is keyed by the IDs of its descriptors: the builder stores every
  descriptor under its own \<^verbatim>\<open>ID\<close>, and nothing else writes the map.
\<close>

definition keyedByID :: "'o Gateway \<Rightarrow> bool" where
  "keyedByID gw \<longleftrightarrow> (\<forall>k ch. gw_Channels gw k = Some ch \<longrightarrow> ch_ID ch = k)"

subsection \<open>Examples\<close>

text \<open>
  A gateway \<open>gw\<close> with an output-only descriptor for the connection-wide pseudo
  channel (empty name) of \<open>discord.x\<close> and an output-only channel on \<open>irc.y\<close>.
\<close>

definition ex_discord_out :: "unit ChannelInfo" where
  "ex_discord_out = \<lparr>ch_Name = [], ch_Direction = ''out'', ch_ID = ''discord.x'',
     ch_Options = (), ch_Account = ''discord.x'', ch_SameChannel = [''gw'' \<mapsto> False]\<rparr>"

definition ex_irc_out :: "unit ChannelInfo" where
  "ex_irc_out = \<lparr>ch_Name = ''#general'', ch_Direction = ''out'', ch_ID = ''#generalirc.y'',
     ch_Options = (), ch_Account = ''irc.y'', ch_SameChannel = [''gw'' \<mapsto> False]\<rparr>"

definition ex_out_gw :: "unit Gateway" where
  "ex_out_gw = \<lparr>gw_Name = ''gw'',
     gw_Channels = [''discord.x'' \<mapsto> ex_discord_out, ''#generalirc.y'' \<mapsto> ex_irc_out],
     gw_Bridges = Map.empty, gw_Messages = [], gw_TengoModifyMessage = []\<rparr>"

definition ex_out_order :: "string list" where
  "ex_out_order = [''discord.x'', ''#generalirc.y'']"

definition ex_bridge :: "string \<Rightarrow> string \<Rightarrow> string \<Rightarrow> Bridge" where
  "ex_bridge account protocol name = \<lparr>br_Account = account, br_Protocol = protocol,
     br_Name = name, br_GetBool = (\<lambda>_. False), br_GetString = (\<lambda>_. []),
     br_GetStringSlice2D = (\<lambda>_. [])\<rparr>"

definition ex_msg :: "string \<Rightarrow> string \<Rightarrow> string \<Rightarrow> string \<Rightarrow> string \<Rightarrow> unit Message" where
  "ex_msg event protocol account channel gateway = \<lparr>msg_Text = ''hello'', msg_Channel = channel,
     msg_Username = ''alice'', msg_Avatar = [], msg_Account = account, msg_Event = event,
     msg_Protocol = protocol, msg_Gateway = gateway, msg_ParentID = [], msg_ID = [],
     msg_Extra = ()\<rparr>"

subsection \<open>Facts about the loops\<close>

lemma set_rangeValues: "set (rangeValues m ks) = {v. \<exists>k \<in> set ks. m k = Some v}"
  by (induction ks) (auto split: option.splits)

lemma visits_rangeValues: "visits m ks \<Longrightarrow> set (rangeValues m ks) = ran m"
  by (auto simp: set_rangeValues visits_def ran_def)

lemma sourceLoop_iff:
  "sourceLoop origin chs \<longleftrightarrow>
     (\<exists>ch \<in> set chs. ch_ID ch = origin \<and> \<not> Contains (ch_Direction ch) ''in'')"
  by (induction chs) auto

lemma destLoop_unconfigured:
  "gw_Channels gw (getChannelID msg) = None \<Longrightarrow> destLoop gw msg dest chs = []"
  by (induction chs) auto

lemma set_destLoop:
  "ch \<in> set (destLoop gw msg dest chs) \<longleftrightarrow>
     ch \<in> set chs \<and> gw_Channels gw (getChannelID msg) \<noteq> None \<and>
     (if sameChannel ch (msg_Gateway msg)
      then msg_Channel msg = ch_Name ch \<and> msg_Account msg \<noteq> br_Account dest
      else Contains (ch_Direction ch) ''out'' \<and> ch_Account ch = br_Account dest \<and>
           validGatewayDest gw msg)"
  by (induction chs) auto

text \<open>The builder keeps the channel map keyed by the IDs of its descriptors.\<close>

lemma mapChannelEntry_keyedByID:
  assumes "mapChannelEntry lower d gw br = Inr gw'" and "keyedByID gw"
  shows "keyedByID gw'"
  using assms
  by (auto simp: mapChannelEntry_def keyedByID_def Let_def split: if_splits option.splits)

lemma mapChannelConfig_keyedByID:
  assumes "mapChannelConfig lower gw cfg d = Inr gw'" and "keyedByID gw"
  shows "keyedByID gw'"
  using assms
proof (induction cfg arbitrary: gw)
  case Nil
  then show ?case by simp
next
  case (Cons br cfg)
  then obtain gw1 where s: "mapChannelEntry lower d gw br = Inr gw1"
    and r: "mapChannelConfig lower gw1 cfg d = Inr gw'"
    by (auto split: sum.splits)
  from Cons.IH [OF r mapChannelEntry_keyedByID [OF s Cons.prems(2)]] show ?case .
qed

lemma keyedByID_origin:
  assumes "keyedByID gw" and "gw_Channels gw k = Some ch" and "ch_ID ch = origin"
  shows "k = origin"
  using assms by (auto simp: keyedByID_def)

lemma sourceLoop_keyed:
  assumes "keyedByID gw" and "gw_Channels gw origin = Some src"
    and "Contains (ch_Direction src) ''in''"
  shows "\<not> sourceLoop origin (rangeValues (gw_Channels gw) ks)"
proof
  assume "sourceLoop origin (rangeValues (gw_Channels gw) ks)"
  then obtain k ch where ch: "gw_Channels gw k = Some ch" "ch_ID ch = origin"
    "\<not> Contains (ch_Direction ch) ''in''"
    by (auto simp: sourceLoop_iff set_rangeValues)
  from keyedByID_origin [OF assms(1) ch(1,2)] ch(1) assms(2) have "ch = src" by simp
  with ch(3) assms(3) show False by simp
qed

text \<open>
  The general case: the message passes the check of API messages, is not the
  join/leave special case, and comes from a configured channel that may send.
\<close>

lemma getDestChannel_general:
  assumes "msg_Protocol msg = apiProtocol \<longrightarrow> gw_Name gw = msg_Gateway msg"
    and "\<not> joinLeaveCase msg" and "keyedByID gw"
    and "gw_Channels gw (getChannelID msg) = Some src"
    and "Contains (ch_Direction src) ''in''"
  shows "getDestChannel gw ks1 ks2 msg dest =
           destLoop gw msg dest (rangeValues (gw_Channels gw) ks2)"
  using assms(1,2) sourceLoop_keyed [OF assms(3,4,5)]
  by (auto simp: getDestChannel_def)

lemma visits_member:
  assumes "visits m ks" and "m k = Some v"
  shows "v \<in> set (rangeValues m ks)"
  using assms by (auto simp: visits_rangeValues ran_def)

subsection \<open>Claim C10\<close>

text \<open>
  C10. For every inbound message that is not the whole-connection join/leave special
  case: if the channel map (keyed by the IDs of its descriptors) contains no
  descriptor whose ID equals the origin channel ID of the message (channel name
  followed by account), \<^verbatim>\<open>getDestChannel\<close> returns the empty list for every candidate
  destination connection, whatever the same-channel flags of the descriptors are.
\<close>

theorem unconfigured_origin_has_no_destination:
  assumes "\<not> joinLeaveCase msg" and "keyedByID gw"
    and "\<forall>ch \<in> ran (gw_Channels gw). ch_ID ch \<noteq> getChannelID msg"
  shows "getDestChannel gw ks1 ks2 msg dest = []"
proof -
  have "gw_Channels gw (getChannelID msg) = None"
  proof (cases "gw_Channels gw (getChannelID msg)")
    case None
    then show ?thesis .
  next
    case (Some ch)
    with assms(2) have "ch_ID ch = getChannelID msg" by (simp add: keyedByID_def)
    moreover from Some have "ch \<in> ran (gw_Channels gw)" by (auto simp: ran_def)
    ultimately show ?thesis using assms(3) by blast
  qed
  then have "destLoop gw msg dest (rangeValues (gw_Channels gw) ks2) = []"
    by (rule destLoop_unconfigured)
  with assms(1) show ?thesis by (simp add: getDestChannel_def)
qed

text \<open>
  Two rooms \<open>#room\<close> on \<open>irc.a\<close> and \<open>irc.b\<close>, both input-only and both mirrored
  (same-channel flag set for the gateway \<open>gw\<close>).
\<close>

definition ex_room :: "string \<Rightarrow> unit ChannelInfo" where
  "ex_room account = \<lparr>ch_Name = ''#room'', ch_Direction = ''in'', ch_ID = ''#room'' @ account,
     ch_Options = (), ch_Account = account, ch_SameChannel = [''gw'' \<mapsto> True]\<rparr>"

definition ex_same_gw :: "unit Gateway" where
  "ex_same_gw = \<lparr>gw_Name = ''gw'',
     gw_Channels = [''#roomirc.a'' \<mapsto> ex_room ''irc.a'', ''#roomirc.b'' \<mapsto> ex_room ''irc.b''],
     gw_Bridges = Map.empty, gw_Messages = [], gw_TengoModifyMessage = []\<rparr>"

definition ex_same_order :: "string list" where
  "ex_same_order = [''#roomirc.a'', ''#roomirc.b'']"

lemma ex_same_gw_keyed: "keyedByID ex_same_gw"
  by (auto simp: keyedByID_def ex_same_gw_def ex_room_def split: if_splits)

lemma ex_same_gw_visits: "visits (gw_Channels ex_same_gw) ex_same_order"
  by (auto simp: visits_def ex_same_gw_def ex_same_order_def)

text \<open>A message from \<open>#room\<close> on the unconfigured account \<open>irc.c\<close> goes nowhere.\<close>

theorem unconfigured_origin_has_no_destination_witness:
  "getDestChannel ex_same_gw ex_same_order ex_same_order
     (ex_msg [] ''irc'' ''irc.c'' ''#room'' ''gw'') (ex_bridge ''irc.a'' ''irc'' ''a'') = []"
proof -
  let ?m = "ex_msg [] ''irc'' ''irc.c'' ''#room'' ''gw''"
  have a: "\<not> joinLeaveCase ?m"
    by (simp add: joinLeaveCase_def ex_msg_def)
  have b: "\<forall>ch \<in> ran (gw_Channels ex_same_gw). ch_ID ch \<noteq> getChannelID ?m"
    by (auto simp: ran_def ex_same_gw_def ex_room_def getChannelID_def ex_msg_def
          split: if_splits)
  from unconfigured_origin_has_no_destination [OF a ex_same_gw_keyed b] show ?thesis .
qed

subsection \<open>Claim C2\<close>

text \<open>
  C2, as the code has it. For every inbound message that is not the whole-connection
  join/leave special case: if a descriptor of the channel map has the origin channel
  ID of the message as its ID and a direction that does not contain \<open>in\<close>,
  \<^verbatim>\<open>getDestChannel\<close> returns the empty list for every candidate destination
  connection.
\<close>

theorem out_only_source_has_no_destination:
  assumes "\<not> joinLeaveCase msg" and "visits (gw_Channels gw) ks1"
    and "gw_Channels gw k = Some ch" and "ch_ID ch = getChannelID msg"
    and "\<not> Contains (ch_Direction ch) ''in''"
  shows "getDestChannel gw ks1 ks2 msg dest = []"
proof -
  from visits_member [OF assms(2,3)] assms(4,5)
  have "sourceLoop (getChannelID msg) (rangeValues (gw_Channels gw) ks1)"
    by (auto simp: sourceLoop_iff)
  with assms(1) show ?thesis by (simp add: getDestChannel_def)
qed

lemma ex_out_gw_visits: "visits (gw_Channels ex_out_gw) ex_out_order"
  by (auto simp: visits_def ex_out_gw_def ex_out_order_def)

text \<open>An ordinary message from the output-only channel \<open>#general\<close> of \<open>irc.y\<close>.\<close>

theorem out_only_source_has_no_destination_witness:
  "getDestChannel ex_out_gw ex_out_order ex_out_order
     (ex_msg [] ''irc'' ''irc.y'' ''#general'' ''gw'') (ex_bridge ''discord.x'' ''discord'' ''x'') = []"
proof -
  let ?m = "ex_msg [] ''irc'' ''irc.y'' ''#general'' ''gw''"
  have a: "\<not> joinLeaveCase ?m"
    by (simp add: joinLeaveCase_def ex_msg_def)
  have c: "gw_Channels ex_out_gw ''#generalirc.y'' = Some ex_irc_out"
    by (simp add: ex_out_gw_def)
  have d: "ch_ID ex_irc_out = getChannelID ?m"
    by (simp add: ex_irc_out_def getChannelID_def ex_msg_def)
  have e: "\<not> Contains (ch_Direction ex_irc_out) ''in''"
    by (simp add: ex_irc_out_def HasPrefix_def)
  from out_only_source_has_no_destination [OF a ex_out_gw_visits c d e] show ?thesis .
qed

text \<open>
  The claim as it was stated, for every inbound message, fails: a connection-wide
  join/leave of \<open>discord.x\<close> (no channel named) has the origin channel ID
  \<open>discord.x\<close>, which is the ID of an output-only descriptor, and is still resolved
  to the output channel of \<open>irc.y\<close>.
\<close>

theorem out_only_source_counterexample:
  "gw_Channels ex_out_gw ''discord.x'' = Some ex_discord_out \<and>
   ch_ID ex_discord_out = getChannelID (ex_msg EventJoinLeave ''discord'' ''discord.x'' [] ''gw'') \<and>
   ch_Direction ex_discord_out = ''out'' \<and>
   \<not> Contains (ch_Direction ex_discord_out) ''in'' \<and>
   getDestChannel ex_out_gw ex_out_order ex_out_order
     (ex_msg EventJoinLeave ''discord'' ''discord.x'' [] ''gw'') (ex_bridge ''irc.y'' ''irc'' ''y'')
     = [ex_irc_out]"
  by (simp add: ex_out_gw_def ex_discord_out_def ex_irc_out_def ex_out_order_def ex_msg_def
        ex_bridge_def getChannelID_def getDestChannel_def joinLeaveCase_def getProtocol_def
        validGatewayDest_def apiProtocol_def HasPrefix_def)

subsection \<open>Claim C3\<close>

text \<open>
  C3, as the code has it. In the general case of destination resolution (the message
  passes the gateway check of API messages, is not the join/leave special case, and
  its origin channel is configured with a direction that contains \<open>in\<close>), every
  descriptor \<open>d\<close> of the channel map whose same-channel flag for the gateway name of
  the message is set is in the result exactly when the name of \<open>d\<close> equals the channel
  name of the message and the account of the message (the sender) differs from the
  account of the candidate destination connection. Neither the direction of \<open>d\<close> nor
  the gateway-name check takes part, so the inclusion bypasses both.
\<close>

theorem same_channel_inclusion:
  assumes "msg_Protocol msg = apiProtocol \<longrightarrow> gw_Name gw = msg_Gateway msg"
    and "\<not> joinLeaveCase msg" and "keyedByID gw"
    and "gw_Channels gw (getChannelID msg) = Some src"
    and "Contains (ch_Direction src) ''in''"
    and "visits (gw_Channels gw) ks2"
    and "gw_Channels gw k = Some d"
    and "sameChannel d (msg_Gateway msg)"
  shows "d \<in> set (getDestChannel gw ks1 ks2 msg dest) \<longleftrightarrow>
           ch_Name d = msg_Channel msg \<and> msg_Account msg \<noteq> br_Account dest"
proof -
  have "getDestChannel gw ks1 ks2 msg dest =
          destLoop gw msg dest (rangeValues (gw_Channels gw) ks2)"
    using assms(1-5) by (rule getDestChannel_general)
  moreover have "d \<in> set (rangeValues (gw_Channels gw) ks2)"
    using assms(6,7) by (rule visits_member)
  ultimately show ?thesis
    using assms(4,8) by (auto simp: set_destLoop)
qed

text \<open>
  A message from \<open>#room\<close> on \<open>irc.b\<close> reaches the input-only mirrored room of \<open>irc.a\<close>
  when the candidate connection is \<open>irc.a\<close>.
\<close>

theorem same_channel_inclusion_witness:
  "ch_Direction (ex_room ''irc.a'') = ''in'' \<and>
   ex_room ''irc.a'' \<in> set (getDestChannel ex_same_gw ex_same_order ex_same_order
     (ex_msg [] ''irc'' ''irc.b'' ''#room'' ''gw'') (ex_bridge ''irc.a'' ''irc'' ''a''))"
proof -
  let ?m = "ex_msg [] ''irc'' ''irc.b'' ''#room'' ''gw''"
  let ?dest = "ex_bridge ''irc.a'' ''irc'' ''a''"
  have a: "msg_Protocol ?m = apiProtocol \<longrightarrow> gw_Name ex_same_gw = msg_Gateway ?m"
    by (simp add: ex_msg_def apiProtocol_def)
  have b: "\<not> joinLeaveCase ?m"
    by (simp add: joinLeaveCase_def ex_msg_def)
  have c: "gw_Channels ex_same_gw (getChannelID ?m) = Some (ex_room ''irc.b'')"
    by (simp add: ex_same_gw_def getChannelID_def ex_msg_def)
  have d: "Contains (ch_Direction (ex_room ''irc.b'')) ''in''"
    by (simp add: ex_room_def HasPrefix_def)
  have e: "gw_Channels ex_same_gw ''#roomirc.a'' = Some (ex_room ''irc.a'')"
    by (simp add: ex_same_gw_def)
  have f: "sameChannel (ex_room ''irc.a'') (msg_Gateway ?m)"
    by (simp add: sameChannel_def ex_room_def ex_msg_def)
  have g: "ch_Name (ex_room ''irc.a'') = msg_Channel ?m \<and> msg_Account ?m \<noteq> br_Account ?dest"
    by (simp add: ex_room_def ex_msg_def ex_bridge_def)
  from same_channel_inclusion [OF a b ex_same_gw_keyed c d ex_same_gw_visits e f,
      of ex_same_order ?dest] g
  show ?thesis by (simp add: ex_room_def)
qed

text \<open>
  The claim as it was stated compares the account of the descriptor with the account
  of the candidate connection. That fails: for a message from \<open>#room\<close> on \<open>irc.b\<close> and
  the candidate connection \<open>irc.b\<close> (the sender's own), the mirrored room of \<open>irc.a\<close>
  has the channel name of the message and another account than the candidate, and is
  not in the result.
\<close>

theorem same_channel_inclusion_counterexample:
  "gw_Channels ex_same_gw ''#roomirc.a'' = Some (ex_room ''irc.a'') \<and>
   sameChannel (ex_room ''irc.a'') (msg_Gateway (ex_msg [] ''irc'' ''irc.b'' ''#room'' ''gw'')) \<and>
   ch_Name (ex_room ''irc.a'') = msg_Channel (ex_msg [] ''irc'' ''irc.b'' ''#room'' ''gw'') \<and>
   ch_Account (ex_room ''irc.a'') \<noteq> br_Account (ex_bridge ''irc.b'' ''irc'' ''b'') \<and>
   ex_room ''irc.a'' \<notin> set (getDestChannel ex_same_gw ex_same_order ex_same_order
     (ex_msg [] ''irc'' ''irc.b'' ''#room'' ''gw'') (ex_bridge ''irc.b'' ''irc'' ''b''))"
  by (simp add: ex_same_gw_def ex_room_def ex_same_order_def ex_msg_def ex_bridge_def
        getChannelID_def getDestChannel_def joinLeaveCase_def sameChannel_def
        apiProtocol_def HasPrefix_def)

subsection \<open>Claim C4\<close>

text \<open>
  C4, as the code has it. In the general case of destination resolution (as in C3),
  every descriptor \<open>d\<close> of the channel map whose same-channel flag for the gateway
  name of the message is not set is in the result exactly when the direction of \<open>d\<close>
  contains \<open>out\<close>, the account of \<open>d\<close> equals the account of the candidate destination
  connection, and the gateway-ownership check \<^verbatim>\<open>validGatewayDest\<close> passes; the check
  passes exactly when the gateway name of the message equals the name of this
  gateway.
\<close>

theorem other_channel_inclusion:
  assumes "msg_Protocol msg = apiProtocol \<longrightarrow> gw_Name gw = msg_Gateway msg"
    and "\<not> joinLeaveCase msg" and "keyedByID gw"
    and "gw_Channels gw (getChannelID msg) = Some src"
    and "Contains (ch_Direction src) ''in''"
    and "visits (gw_Channels gw) ks2"
    and "gw_Channels gw k = Some d"
    and "\<not> sameChannel d (msg_Gateway msg)"
  shows "(d \<in> set (getDestChannel gw ks1 ks2 msg dest) \<longleftrightarrow>
            Contains (ch_Direction d) ''out'' \<and> ch_Account d = br_Account dest \<and>
            validGatewayDest gw msg) \<and>
         (validGatewayDest gw msg \<longleftrightarrow> msg_Gateway msg = gw_Name gw)"
proof -
  have "getDestChannel gw ks1 ks2 msg dest =
          destLoop gw msg dest (rangeValues (gw_Channels gw) ks2)"
    using assms(1-5) by (rule getDestChannel_general)
  moreover have "d \<in> set (rangeValues (gw_Channels gw) ks2)"
    using assms(6,7) by (rule visits_member)
  ultimately show ?thesis
    using assms(4,8) by (auto simp: set_destLoop validGatewayDest_def)
qed

text \<open>
  A gateway \<open>gw\<close> with the input channel \<open>#src\<close> on \<open>irc.a\<close> and the output channel
  \<open>#dst\<close> on \<open>irc.b\<close>, neither mirrored.
\<close>

definition ex_plain :: "string \<Rightarrow> string \<Rightarrow> string \<Rightarrow> unit ChannelInfo" where
  "ex_plain name account direction = \<lparr>ch_Name = name, ch_Direction = direction,
     ch_ID = name @ account, ch_Options = (), ch_Account = account,
     ch_SameChannel = [''gw'' \<mapsto> False]\<rparr>"

definition ex_plain_gw :: "unit Gateway" where
  "ex_plain_gw = \<lparr>gw_Name = ''gw'',
     gw_Channels = [''#srcirc.a'' \<mapsto> ex_plain ''#src'' ''irc.a'' ''in'',
                    ''#dstirc.b'' \<mapsto> ex_plain ''#dst'' ''irc.b'' ''out''],
     gw_Bridges = Map.empty, gw_Messages = [], gw_TengoModifyMessage = []\<rparr>"

definition ex_plain_order :: "string list" where
  "ex_plain_order = [''#dstirc.b'', ''#srcirc.a'']"

lemma ex_plain_gw_keyed: "keyedByID ex_plain_gw"
  by (auto simp: keyedByID_def ex_plain_gw_def ex_plain_def split: if_splits)

lemma ex_plain_gw_visits: "visits (gw_Channels ex_plain_gw) ex_plain_order"
  by (auto simp: visits_def ex_plain_gw_def ex_plain_order_def)

text \<open>A message of the gateway \<open>gw\<close> from \<open>#src\<close> reaches \<open>#dst\<close>.\<close>

theorem other_channel_inclusion_witness:
  "ex_plain ''#dst'' ''irc.b'' ''out'' \<in> set (getDestChannel ex_plain_gw ex_plain_order ex_plain_order
     (ex_msg [] ''irc'' ''irc.a'' ''#src'' ''gw'') (ex_bridge ''irc.b'' ''irc'' ''b''))"
proof -
  let ?m = "ex_msg [] ''irc'' ''irc.a'' ''#src'' ''gw''"
  let ?dest = "ex_bridge ''irc.b'' ''irc'' ''b''"
  let ?d = "ex_plain ''#dst'' ''irc.b'' ''out''"
  have a: "msg_Protocol ?m = apiProtocol \<longrightarrow> gw_Name ex_plain_gw = msg_Gateway ?m"
    by (simp add: ex_msg_def apiProtocol_def)
  have b: "\<not> joinLeaveCase ?m"
    by (simp add: joinLeaveCase_def ex_msg_def)
  have c: "gw_Channels ex_plain_gw (getChannelID ?m) = Some (ex_plain ''#src'' ''irc.a'' ''in'')"
    by (simp add: ex_plain_gw_def getChannelID_def ex_msg_def)
  have d: "Contains (ch_Direction (ex_plain ''#src'' ''irc.a'' ''in'')) ''in''"
    by (simp add: ex_plain_def HasPrefix_def)
  have e: "gw_Channels ex_plain_gw ''#dstirc.b'' = Some ?d"
    by (simp add: ex_plain_gw_def)
  have f: "\<not> sameChannel ?d (msg_Gateway ?m)"
    by (simp add: sameChannel_def ex_plain_def ex_msg_def)
  have g: "Contains (ch_Direction ?d) ''out'' \<and> ch_Account ?d = br_Account ?dest \<and>
           msg_Gateway ?m = gw_Name ex_plain_gw"
    by (simp add: ex_plain_def ex_msg_def ex_bridge_def ex_plain_gw_def HasPrefix_def)
  from other_channel_inclusion [OF a b ex_plain_gw_keyed c d ex_plain_gw_visits e f,
      of ex_plain_order ?dest] g
  show ?thesis by simp
qed

text \<open>
  The claim as it was stated lets the gateway-ownership check pass when the gateway
  name of the message is unset. That fails: the same message with an empty gateway
  name is not resolved to \<open>#dst\<close>, although \<open>#dst\<close> is an output channel of the
  candidate connection.
\<close>

theorem other_channel_inclusion_counterexample:
  "msg_Gateway (ex_msg [] ''irc'' ''irc.a'' ''#src'' []) = [] \<and>
   gw_Channels ex_plain_gw ''#dstirc.b'' = Some (ex_plain ''#dst'' ''irc.b'' ''out'') \<and>
   \<not> sameChannel (ex_plain ''#dst'' ''irc.b'' ''out'') (msg_Gateway (ex_msg [] ''irc'' ''irc.a'' ''#src'' [])) \<and>
   Contains (ch_Direction (ex_plain ''#dst'' ''irc.b'' ''out'')) ''out'' \<and>
   ch_Account (ex_plain ''#dst'' ''irc.b'' ''out'') = br_Account (ex_bridge ''irc.b'' ''irc'' ''b'') \<and>
   ex_plain ''#dst'' ''irc.b'' ''out'' \<notin> set (getDestChannel ex_plain_gw ex_plain_order ex_plain_order
     (ex_msg [] ''irc'' ''irc.a'' ''#src'' []) (ex_bridge ''irc.b'' ''irc'' ''b'')) \<and>
   getDestChannel ex_plain_gw ex_plain_order ex_plain_order
     (ex_msg [] ''irc'' ''irc.a'' ''#src'' []) (ex_bridge ''irc.b'' ''irc'' ''b'') = []"
  by (simp add: ex_plain_gw_def ex_plain_def ex_plain_order_def ex_msg_def ex_bridge_def
        getChannelID_def getDestChannel_def joinLeaveCase_def sameChannel_def
        validGatewayDest_def apiProtocol_def HasPrefix_def)

section \<open>The message identity cache\<close>

text \<open>
  The operations of the LRU cache that the gateway calls, on the list of entries from
  the oldest to the newest. \<^verbatim>\<open>Contains\<close> and \<^verbatim>\<open>Peek\<close> leave the order alone; \<^verbatim>\<open>Get\<close>
  makes the entry it finds the newest one.
\<close>

definition cacheContains :: "Cache \<Rightarrow> string \<Rightarrow> bool" where
  "cacheContains c k = (map_of c k \<noteq> None)"

definition cacheGet :: "Cache \<Rightarrow> string \<Rightarrow> BrMsgID list option \<times> Cache" where
  "cacheGet c k =
     (case map_of c k of
        None \<Rightarrow> (None, c)
      | Some v \<Rightarrow> (Some v, filter (\<lambda>e. fst e \<noteq> k) c @ [(k, v)]))"

text \<open>
  The inner loop of \<^verbatim>\<open>FindCanonicalMsgID\<close>: whether one of the downstream identities
  of an entry has the ID looked for.
\<close>

fun downstreamLoop :: "string \<Rightarrow> BrMsgID list \<Rightarrow> bool" where
  "downstreamLoop ident [] = False"
| "downstreamLoop ident (downstreamMsgObj # ids) =
     (if ident = bm_ID downstreamMsgObj then True else downstreamLoop ident ids)"

text \<open>
  The outer loop: \<^verbatim>\<open>Keys()\<close> gives the keys from the oldest to the newest and
  \<^verbatim>\<open>Peek\<close> the identities stored under each, so the loop goes through the entries in
  their order.
\<close>

fun keysLoop :: "string \<Rightarrow> string \<Rightarrow> Cache \<Rightarrow> string" where
  "keysLoop protocol ident [] = []"
| "keysLoop protocol ident ((mid, ids) # rest) =
     (if downstreamLoop ident ids then Replace1 mid (protocol @ '' '') []
      else keysLoop protocol ident rest)"

definition FindCanonicalMsgID :: "'o Gateway \<Rightarrow> string \<Rightarrow> string \<Rightarrow> string" where
  "FindCanonicalMsgID gw protocol mID =
     (let ident = protocol @ '' '' @ mID in
      if cacheContains (gw_Messages gw) ident then mID
      else keysLoop protocol ident (gw_Messages gw))"

text \<open>
  A cache for the examples: the message \<open>msg42\<close> of IRC was sent on to Slack, where it
  has the ID \<open>17\<close>; the message \<open>9\<close> of Slack was sent on to IRC as \<open>msg43\<close>; and the
  message \<open>msg60\<close> of IRC was sent on to another IRC channel as \<open>msg61\<close>.
\<close>

definition ex_slack :: Bridge where
  "ex_slack = ex_bridge ''slack.s'' ''slack'' ''s''"

definition ex_irc :: Bridge where
  "ex_irc = ex_bridge ''irc.a'' ''irc'' ''a''"

definition ex_cache :: Cache where
  "ex_cache =
     [(''irc msg42'', [\<lparr>bm_br = ex_slack, bm_ID = ''slack 17'', bm_ChannelID = ''generalslack.s''\<rparr>]),
      (''slack 9'', [\<lparr>bm_br = ex_irc, bm_ID = ''irc msg43'', bm_ChannelID = ''#roomirc.a''\<rparr>]),
      (''irc msg60'', [\<lparr>bm_br = ex_irc, bm_ID = ''irc msg61'', bm_ChannelID = ''#otherirc.a''\<rparr>])]"

definition ex_cache_gw :: "unit Gateway" where
  "ex_cache_gw = \<lparr>gw_Name = ''gw'', gw_Channels = Map.empty,
     gw_Bridges = [''irc.a'' \<mapsto> ex_irc, ''slack.s'' \<mapsto> ex_slack],
     gw_Messages = ex_cache, gw_TengoModifyMessage = []\<rparr>"

lemma downstreamLoop_iff: "downstreamLoop ident ids \<longleftrightarrow> (\<exists>d \<in> set ids. bm_ID d = ident)"
  by (induction ids) auto

lemma keysLoop_found:
  assumes "\<exists>e \<in> set c. downstreamLoop ident (snd e)"
  shows "\<exists>e \<in> set c. downstreamLoop ident (snd e) \<and>
           keysLoop protocol ident c = Replace1 (fst e) (protocol @ '' '') []"
  using assms
proof (induction c)
  case Nil
  then show ?case by simp
next
  case (Cons x c)
  obtain mid ids where x: "x = (mid, ids)" by (cases x)
  show ?case
  proof (cases "downstreamLoop ident ids")
    case True
    then show ?thesis by (simp add: x)
  next
    case False
    with Cons.prems x have "\<exists>e \<in> set c. downstreamLoop ident (snd e)" by auto
    from Cons.IH [OF this] False show ?thesis by (simp add: x)
  qed
qed

lemma keysLoop_absent:
  assumes "\<not> (\<exists>e \<in> set c. downstreamLoop ident (snd e))"
  shows "keysLoop protocol ident c = []"
  using assms by (induction c) auto

lemma Replace1_prefix: "Replace1 (p @ s) p [] = s"
proof (cases "p @ s")
  case Nil
  then show ?thesis by simp
next
  case (Cons a list)
  have "HasPrefix (a # list) p"
    unfolding Cons [symmetric] by (simp add: HasPrefix_def)
  then have "Replace1 (a # list) p [] = drop (length p) (a # list)" by simp
  also have "\<dots> = s"
    unfolding Cons [symmetric] by simp
  finally show ?thesis by (simp add: Cons)
qed

lemma Replace1_strips:
  assumes "HasPrefix s p"
  shows "s = p @ Replace1 s p []"
proof -
  from assms have "s = p @ drop (length p) s"
    by (metis HasPrefix_def append_take_drop_id)
  moreover have "Replace1 (p @ drop (length p) s) p [] = drop (length p) s"
    by (rule Replace1_prefix)
  ultimately show ?thesis by simp
qed

subsection \<open>Claim C7\<close>

text \<open>
  C7, as the code has it by design. \<^verbatim>\<open>FindCanonicalMsgID(protocol, mID)\<close> takes the raw
  message ID \<open>mID\<close> and looks for the composite ID \<open>protocol + " " + mID\<close>. It returns
  \<open>mID\<close> when the composite ID is a cache key. Otherwise, when identity lists of cached
  entries hold the composite ID and the keys of these entries are of the same protocol
  (they start with \<open>protocol + " "\<close>), it returns the raw origin ID of such an entry,
  which is its key with that prefix stripped. When no entry holds the composite ID, it
  returns the empty string. The statement is silent on an entry whose key is of
  another protocol.
\<close>

theorem find_canonical_msg_id:
  "(cacheContains (gw_Messages gw) (protocol @ '' '' @ mID)
      \<longrightarrow> FindCanonicalMsgID gw protocol mID = mID)
   \<and>
   (\<not> cacheContains (gw_Messages gw) (protocol @ '' '' @ mID) \<and>
    (\<exists>e \<in> set (gw_Messages gw). \<exists>d \<in> set (snd e). bm_ID d = protocol @ '' '' @ mID) \<and>
    (\<forall>e \<in> set (gw_Messages gw).
       (\<exists>d \<in> set (snd e). bm_ID d = protocol @ '' '' @ mID) \<longrightarrow>
       HasPrefix (fst e) (protocol @ '' ''))
      \<longrightarrow> (\<exists>e \<in> set (gw_Messages gw).
             (\<exists>d \<in> set (snd e). bm_ID d = protocol @ '' '' @ mID) \<and>
             fst e = (protocol @ '' '') @ FindCanonicalMsgID gw protocol mID))
   \<and>
   (\<not> cacheContains (gw_Messages gw) (protocol @ '' '' @ mID) \<and>
    \<not> (\<exists>e \<in> set (gw_Messages gw). \<exists>d \<in> set (snd e). bm_ID d = protocol @ '' '' @ mID)
      \<longrightarrow> FindCanonicalMsgID gw protocol mID = [])"
proof (intro conjI)
  show "cacheContains (gw_Messages gw) (protocol @ '' '' @ mID)
      \<longrightarrow> FindCanonicalMsgID gw protocol mID = mID"
    by (simp add: FindCanonicalMsgID_def)
next
  show "\<not> cacheContains (gw_Messages gw) (protocol @ '' '' @ mID) \<and>
    (\<exists>e \<in> set (gw_Messages gw). \<exists>d \<in> set (snd e). bm_ID d = protocol @ '' '' @ mID) \<and>
    (\<forall>e \<in> set (gw_Messages gw).
       (\<exists>d \<in> set (snd e). bm_ID d = protocol @ '' '' @ mID) \<longrightarrow>
       HasPrefix (fst e) (protocol @ '' ''))
      \<longrightarrow> (\<exists>e \<in> set (gw_Messages gw).
             (\<exists>d \<in> set (snd e). bm_ID d = protocol @ '' '' @ mID) \<and>
             fst e = (protocol @ '' '') @ FindCanonicalMsgID gw protocol mID)"
  proof
    assume a: "\<not> cacheContains (gw_Messages gw) (protocol @ '' '' @ mID) \<and>
      (\<exists>e \<in> set (gw_Messages gw). \<exists>d \<in> set (snd e). bm_ID d = protocol @ '' '' @ mID) \<and>
      (\<forall>e \<in> set (gw_Messages gw).
         (\<exists>d \<in> set (snd e). bm_ID d = protocol @ '' '' @ mID) \<longrightarrow>
         HasPrefix (fst e) (protocol @ '' ''))"
    then have "\<exists>e \<in> set (gw_Messages gw). downstreamLoop (protocol @ '' '' @ mID) (snd e)"
      by (simp add: downstreamLoop_iff)
    from keysLoop_found [OF this, of protocol] obtain e where
      e: "e \<in> set (gw_Messages gw)" "downstreamLoop (protocol @ '' '' @ mID) (snd e)"
      and k: "keysLoop protocol (protocol @ '' '' @ mID) (gw_Messages gw) =
                Replace1 (fst e) (protocol @ '' '') []"
      by blast
    from e have l: "\<exists>d \<in> set (snd e). bm_ID d = protocol @ '' '' @ mID"
      by (simp add: downstreamLoop_iff)
    with a e(1) have "HasPrefix (fst e) (protocol @ '' '')" by blast
    then have "fst e = (protocol @ '' '') @ Replace1 (fst e) (protocol @ '' '') []"
      by (rule Replace1_strips)
    moreover from a k have "FindCanonicalMsgID gw protocol mID =
                              Replace1 (fst e) (protocol @ '' '') []"
      by (simp add: FindCanonicalMsgID_def)
    ultimately have "fst e = (protocol @ '' '') @ FindCanonicalMsgID gw protocol mID"
      by simp
    with e(1) l show "\<exists>e \<in> set (gw_Messages gw).
             (\<exists>d \<in> set (snd e). bm_ID d = protocol @ '' '' @ mID) \<and>
             fst e = (protocol @ '' '') @ FindCanonicalMsgID gw protocol mID"
      by blast
  qed
next
  show "\<not> cacheContains (gw_Messages gw) (protocol @ '' '' @ mID) \<and>
    \<not> (\<exists>e \<in> set (gw_Messages gw). \<exists>d \<in> set (snd e). bm_ID d = protocol @ '' '' @ mID)
      \<longrightarrow> FindCanonicalMsgID gw protocol mID = []"
  proof
    assume a: "\<not> cacheContains (gw_Messages gw) (protocol @ '' '' @ mID) \<and>
      \<not> (\<exists>e \<in> set (gw_Messages gw). \<exists>d \<in> set (snd e). bm_ID d = protocol @ '' '' @ mID)"
    then have "\<not> (\<exists>e \<in> set (gw_Messages gw). downstreamLoop (protocol @ '' '' @ mID) (snd e))"
      by (simp add: downstreamLoop_iff)
    from keysLoop_absent [OF this, of protocol] a
    show "FindCanonicalMsgID gw protocol mID = []"
      by (simp add: FindCanonicalMsgID_def)
  qed
qed

text \<open>
  In the cache of the examples: \<open>msg42\<close> of IRC is its own origin, since \<open>irc msg42\<close>
  is a cache key; \<open>msg61\<close> of IRC is only listed as a destination identity, under the
  key \<open>irc msg60\<close>, and its origin is \<open>msg60\<close>; \<open>msg44\<close> is in neither place.
\<close>

theorem find_canonical_msg_id_witness:
  "FindCanonicalMsgID ex_cache_gw ''irc'' ''msg42'' = ''msg42'' \<and>
   FindCanonicalMsgID ex_cache_gw ''irc'' ''msg61'' = ''msg60'' \<and>
   FindCanonicalMsgID ex_cache_gw ''irc'' ''msg44'' = []"
proof -
  have c: "gw_Messages ex_cache_gw = ex_cache"
    by (simp add: ex_cache_gw_def)
  have k42: "cacheContains ex_cache ''irc msg42''"
    by (simp add: cacheContains_def ex_cache_def)
  have k61: "\<not> cacheContains ex_cache ''irc msg61''"
    by (simp add: cacheContains_def ex_cache_def)
  have k44: "\<not> cacheContains ex_cache ''irc msg44''"
    by (simp add: cacheContains_def ex_cache_def)
  have l61: "\<exists>e \<in> set ex_cache. \<exists>d \<in> set (snd e). bm_ID d = ''irc msg61''"
    by (simp add: ex_cache_def)
  have p61: "\<forall>e \<in> set ex_cache.
               (\<exists>d \<in> set (snd e). bm_ID d = ''irc msg61'') \<longrightarrow> HasPrefix (fst e) ''irc ''"
    by (simp add: ex_cache_def HasPrefix_def)
  have l44: "\<not> (\<exists>e \<in> set ex_cache. \<exists>d \<in> set (snd e). bm_ID d = ''irc msg44'')"
    by (simp add: ex_cache_def)
  have r42: "FindCanonicalMsgID ex_cache_gw ''irc'' ''msg42'' = ''msg42''"
    using find_canonical_msg_id [of ex_cache_gw "''irc''" "''msg42''"] k42 by (simp add: c)
  have "\<exists>e \<in> set ex_cache. (\<exists>d \<in> set (snd e). bm_ID d = ''irc msg61'') \<and>
          fst e = ''irc '' @ FindCanonicalMsgID ex_cache_gw ''irc'' ''msg61''"
    using find_canonical_msg_id [of ex_cache_gw "''irc''" "''msg61''"] k61 l61 p61
    by (simp add: c)
  then have r61: "FindCanonicalMsgID ex_cache_gw ''irc'' ''msg61'' = ''msg60''"
    by (auto simp: ex_cache_def)
  have r44: "FindCanonicalMsgID ex_cache_gw ''irc'' ''msg44'' = []"
    using find_canonical_msg_id [of ex_cache_gw "''irc''" "''msg44''"] k44 l44 by (simp add: c)
  from r42 r61 r44 show ?thesis by simp
qed

text \<open>
  The instance that the claim gave fails: the second argument is the raw ID, so with
  the composite ID \<open>irc msg42\<close> in its place the function looks for \<open>irc irc msg42\<close>,
  finds nothing and returns the empty string, although \<open>irc msg42\<close> is a cache key.
\<close>

theorem find_canonical_msg_id_counterexample:
  "cacheContains (gw_Messages ex_cache_gw) ''irc msg42'' \<and>
   FindCanonicalMsgID ex_cache_gw ''irc'' ''irc msg42'' = [] \<and>
   FindCanonicalMsgID ex_cache_gw ''irc'' ''irc msg42'' \<noteq> ''msg42''"
  by (simp add: FindCanonicalMsgID_def cacheContains_def ex_cache_gw_def ex_cache_def)

section \<open>Dispatch\<close>

text \<open>
  \<^verbatim>\<open>strings.Replace(s, old, new, -1)\<close> for a non-empty \<open>old\<close>: every occurrence of
  \<open>old\<close>, from the left and without overlap, is replaced. The gateway calls it with
  its placeholders only, which are not empty; the function is left unspecified for the
  empty \<open>old\<close>.
\<close>

fun ReplaceAll :: "string \<Rightarrow> string \<Rightarrow> string \<Rightarrow> string" where
  "ReplaceAll [] (x # old) new = []"
| "ReplaceAll (c # cs) (x # old) new =
     (if HasPrefix (c # cs) (x # old) then new @ ReplaceAll (drop (length old) cs) (x # old) new
      else c # ReplaceAll cs (x # old) new)"

text \<open>
  What the gateway takes from libraries: the compilation of a regular expression (an
  error message or the compiled expression), \<^verbatim>\<open>ReplaceAllString\<close> of a compiled
  expression, and the length in bytes of the first UTF-8 sequence of a string as the
  \<^verbatim>\<open>range\<close> over a string decodes it.
\<close>

record 're Lib =
  regexp_Compile :: "string \<Rightarrow> string + 're"
  regexp_ReplaceAllString :: "'re \<Rightarrow> string \<Rightarrow> string \<Rightarrow> string"
  utf8_firstRuneLen :: "string \<Rightarrow> nat"

text \<open>A nil dereference or an index out of range ends the goroutine with a panic.\<close>

datatype panic = NilBridge | IndexOutOfRange

text \<open>The lines that \<^verbatim>\<open>gw.logger.Errorf\<close> writes; debug lines are left out.\<close>

datatype logline = RegexpFailed string string | TengoModifyMessageFailed string

text \<open>
  \<^verbatim>\<open>getDestMsgID\<close>. \<^verbatim>\<open>Get\<close> moves the entry it finds to the newest place, so the
  gateway comes back with its cache reordered.
\<close>

fun idsLoop :: "Bridge \<Rightarrow> 'o ChannelInfo \<Rightarrow> BrMsgID list \<Rightarrow> string" where
  "idsLoop dest channel [] = []"
| "idsLoop dest channel (ident # IDs) =
     (if br_Protocol dest = br_Protocol (bm_br ident) \<and> br_Name dest = br_Name (bm_br ident) \<and>
         ch_ID channel = bm_ChannelID ident
      then Replace1 (bm_ID ident) (br_Protocol dest @ '' '') []
      else idsLoop dest channel IDs)"

definition getDestMsgID ::
  "'o Gateway \<Rightarrow> string \<Rightarrow> Bridge \<Rightarrow> 'o ChannelInfo \<Rightarrow> string \<times> 'o Gateway" where
  "getDestMsgID gw msgID dest channel =
     (case cacheGet (gw_Messages gw) msgID of
        (None, c) \<Rightarrow> ([], gw\<lparr>gw_Messages := c\<rparr>)
      | (Some IDs, c) \<Rightarrow> (idsLoop dest channel IDs, gw\<lparr>gw_Messages := c\<rparr>))"

text \<open>
  \<^verbatim>\<open>modifyAvatar\<close> writes through its pointer: the result is the avatar and the message
  as the call leaves it.
\<close>

definition modifyAvatar :: "'x Message \<Rightarrow> Bridge \<Rightarrow> string \<times> 'x Message" where
  "modifyAvatar msg dest =
     (let iconurl = br_GetString dest ''IconURL'';
          iconurl = ReplaceAll iconurl ''{NICK}'' (msg_Username msg);
          msg = (if msg_Avatar msg = [] then msg\<lparr>msg_Avatar := iconurl\<rparr> else msg)
      in (msg_Avatar msg, msg))"

text \<open>
  \<^verbatim>\<open>StripNick\<close>: the fixed expression \<^verbatim>\<open>[^a-zA-Z0-9]+\<close> replaced by the empty string
  leaves the bytes that are ASCII letters and digits.
\<close>

definition alnum :: "char \<Rightarrow> bool" where
  "alnum c = (let n = (of_char c :: nat) in
                (48 \<le> n \<and> n \<le> 57) \<or> (65 \<le> n \<and> n \<le> 90) \<or> (97 \<le> n \<and> n \<le> 122))"

text \<open>
  The loops over \<^verbatim>\<open>ReplaceNicks\<close> and \<^verbatim>\<open>ReplaceMessages\<close>: each pair (search,
  replace) is applied in turn; an expression that does not compile is logged and ends
  the loop; a pair with fewer than two strings is an index out of range.
\<close>

fun replaceLoop ::
  "'re Lib \<Rightarrow> string \<Rightarrow> string \<Rightarrow> string list list \<Rightarrow> panic + (string \<times> logline list)" where
  "replaceLoop lib account s [] = Inr (s, [])"
| "replaceLoop lib account s (outer # rest) =
     (case outer of
        search # replace # _ \<Rightarrow>
          (case regexp_Compile lib search of
             Inl err \<Rightarrow> Inr (s, [RegexpFailed account err])
           | Inr re \<Rightarrow> replaceLoop lib account (regexp_ReplaceAllString lib re s replace) rest)
      | _ \<Rightarrow> Inl IndexOutOfRange)"

text \<open>
  The index at which \<^verbatim>\<open>{NOPINGNICK}\<close> splits the user name: the start of the second
  rune, or 1 when the name has one rune only.
\<close>

definition nopingIndex :: "'re Lib \<Rightarrow> string \<Rightarrow> nat" where
  "nopingIndex lib username =
     (if utf8_firstRuneLen lib username < length username
      then utf8_firstRuneLen lib username else 1)"

text \<open>The zero-width space U+200B in UTF-8.\<close>

definition zwsp :: string where
  "zwsp = [CHR 0xE2, CHR 0x80, CHR 0x8B]"

text \<open>
  \<^verbatim>\<open>modifyUsername\<close> writes the protocol and the user name through its pointer: the
  result is the nick, the message as the call leaves it, and the lines logged.
\<close>

definition modifyUsername ::
  "'re Lib \<Rightarrow> 'o Gateway \<Rightarrow> 'x Message \<Rightarrow> Bridge \<Rightarrow>
   panic + (string \<times> 'x Message \<times> logline list)" where
  "modifyUsername lib gw msg dest =
     (case gw_Bridges gw (msg_Account msg) of
        None \<Rightarrow> Inl NilBridge
      | Some br \<Rightarrow>
          let msg = msg\<lparr>msg_Protocol := br_Protocol br\<rparr>;
              msg = (if br_GetBool dest ''StripNick''
                     then msg\<lparr>msg_Username := filter alnum (msg_Username msg)\<rparr> else msg);
              nick = br_GetString dest ''RemoteNickFormat''
          in case replaceLoop lib (msg_Account msg) (msg_Username msg)
                    (br_GetStringSlice2D br ''ReplaceNicks'') of
               Inl p \<Rightarrow> Inl p
             | Inr (username, logged) \<Rightarrow>
                 let msg = msg\<lparr>msg_Username := username\<rparr>;
                     nick = (if length (msg_Username msg) > 0
                             then let i = nopingIndex lib (msg_Username msg)
                                  in ReplaceAll nick ''{NOPINGNICK}''
                                       (take i (msg_Username msg) @ zwsp @ drop i (msg_Username msg))
                             else nick);
                     nick = ReplaceAll nick ''{BRIDGE}'' (br_Name br);
                     nick = ReplaceAll nick ''{PROTOCOL}'' (br_Protocol br);
                     nick = ReplaceAll nick ''{GATEWAY}'' (gw_Name gw);
                     nick = ReplaceAll nick ''{LABEL}'' (br_GetString br ''Label'');
                     nick = ReplaceAll nick ''{NICK}'' (msg_Username msg);
                     nick = ReplaceAll nick ''{CHANNEL}'' (msg_Channel msg)
                 in Inr (nick, msg, logged))"

text \<open>
  What a call of \<^verbatim>\<open>SendMessage\<close> leaves behind: the pair it returns, the inbound
  message behind the pointer \<^verbatim>\<open>rmsg\<close> and the gateway as they are after the call, the
  messages handed to the send capability of the destination, the messages put on the
  stream of the Mattermost plugin, and the lines logged.
\<close>

record ('o, 'x) Sent =
  sr_mID :: string
  sr_err :: "string option"
  sr_rmsg :: "'x Message"
  sr_gw :: "'o Gateway"
  sr_sent :: "'x Message list"
  sr_plugin :: "'x Message list"
  sr_logged :: "logline list"

text \<open>
  \<^verbatim>\<open>SendMessage\<close>. \<open>send\<close> is the answer of \<^verbatim>\<open>dest.Send\<close>: a message ID and an error
  or none.
\<close>

definition SendMessage ::
  "'re Lib \<Rightarrow> 'o Gateway \<Rightarrow> ('x Message \<Rightarrow> string \<times> string option) \<Rightarrow>
   'x Message \<Rightarrow> Bridge \<Rightarrow> 'o ChannelInfo \<Rightarrow> string \<Rightarrow> panic + ('o, 'x) Sent" where
  "SendMessage lib gw send rmsg dest channel canonicalParentMsgID =
     (let msg = rmsg;
          nothing = \<lparr>sr_mID = [], sr_err = None, sr_rmsg = rmsg, sr_gw = gw,
                     sr_sent = [], sr_plugin = [], sr_logged = []\<rparr>
      in
      if (if msg_Event msg = EventAvatarDownload
          then ch_ID channel \<noteq> getChannelID rmsg
          else ch_ID channel = getChannelID rmsg)
      then Inr nothing
      else
        let msg = msg\<lparr>msg_Channel := ch_Name channel\<rparr>;
            (avatar, rmsg) = modifyAvatar rmsg dest;
            msg = msg\<lparr>msg_Avatar := avatar\<rparr>
        in case modifyUsername lib gw rmsg dest of
             Inl p \<Rightarrow> Inl p
           | Inr (nick, rmsg, logged) \<Rightarrow>
               let msg = msg\<lparr>msg_Username := nick\<rparr>;
                   (ident, gw) = getDestMsgID gw (msg_Protocol rmsg @ '' '' @ msg_ID rmsg) dest channel;
                   msg = msg\<lparr>msg_ID := ident\<rparr>;
                   msg = (if br_Protocol dest = apiProtocol
                          then msg\<lparr>msg_Channel := msg_Channel rmsg\<rparr> else msg);
                   (parent, gw) = getDestMsgID gw (msg_Protocol rmsg @ '' '' @ canonicalParentMsgID)
                                    dest channel;
                   msg = msg\<lparr>msg_ParentID := parent\<rparr>;
                   msg = (if msg_ParentID msg = []
                          then msg\<lparr>msg_ParentID := canonicalParentMsgID\<rparr> else msg);
                   msg = (if msg_ParentID msg = [] \<and> msg_ParentID rmsg \<noteq> []
                          then msg\<lparr>msg_ParentID := ''msg-parent-not-found''\<rparr> else msg);
                   plugin = (if br_Account dest = ''mattermost.plugin'' then [msg] else []);
                   (mID, err) = send msg
               in Inr \<lparr>sr_mID = (if err \<noteq> None then mID else if mID \<noteq> [] then mID else []),
                       sr_err = err, sr_rmsg = rmsg, sr_gw = gw,
                       sr_sent = [msg], sr_plugin = plugin, sr_logged = logged\<rparr>)"

text \<open>What came of a call: the messages delivered, and the inbound original after it.\<close>

definition delivered :: "panic + ('o, 'x) Sent \<Rightarrow> 'x Message list" where
  "delivered res = (case res of Inl p \<Rightarrow> [] | Inr r \<Rightarrow> sr_sent r)"

definition originalAfter :: "panic + ('o, 'x) Sent \<Rightarrow> 'x Message option" where
  "originalAfter res = (case res of Inl p \<Rightarrow> None | Inr r \<Rightarrow> Some (sr_rmsg r))"

subsection \<open>Examples\<close>

text \<open>
  A library stand-in for the examples, which configure no expression to compile and
  use ASCII names; a destination that answers every message with the ID \<open>55\<close>; the
  Slack connection with a nick format and an icon URL; its channel \<open>general\<close>; and an
  IRC message \<open>msg50\<close> from \<open>#room\<close> that answers the parent \<open>msg41\<close>.
\<close>

definition ex_lib :: "unit Lib" where
  "ex_lib = \<lparr>regexp_Compile = (\<lambda>_. Inl ''no expression''),
     regexp_ReplaceAllString = (\<lambda>_ s _. s), utf8_firstRuneLen = (\<lambda>_. 1)\<rparr>"

definition ex_send :: "unit Message \<Rightarrow> string \<times> string option" where
  "ex_send m = (''55'', None)"

definition ex_slack_dest :: Bridge where
  "ex_slack_dest = ex_slack\<lparr>br_GetString :=
     (\<lambda>k. if k = ''IconURL'' then ''http://x/{NICK}.png''
          else if k = ''RemoteNickFormat'' then ''<{NICK}> '' else [])\<rparr>"

definition ex_general :: "unit ChannelInfo" where
  "ex_general = \<lparr>ch_Name = ''general'', ch_Direction = ''inout'', ch_ID = ''generalslack.s'',
     ch_Options = (), ch_Account = ''slack.s'', ch_SameChannel = [''gw'' \<mapsto> False]\<rparr>"

definition ex_room_irc :: "unit ChannelInfo" where
  "ex_room_irc = \<lparr>ch_Name = ''#room'', ch_Direction = ''inout'', ch_ID = ''#roomirc.a'',
     ch_Options = (), ch_Account = ''irc.a'', ch_SameChannel = [''gw'' \<mapsto> False]\<rparr>"

definition ex_reply :: "string \<Rightarrow> unit Message" where
  "ex_reply event = (ex_msg event ''irc'' ''irc.a'' ''#room'' ''gw'')
     \<lparr>msg_ParentID := ''msg41'', msg_ID := ''msg50''\<rparr>"

text \<open>
  The same reply as the IRC connection hands it over, from the user \<open>al.ice\<close> and with
  no protocol set yet; and the Slack connection configured to strip nicks.
\<close>

definition ex_raw :: "unit Message" where
  "ex_raw = (ex_reply [])\<lparr>msg_Protocol := [], msg_Username := ''al.ice''\<rparr>"

definition ex_strip_dest :: Bridge where
  "ex_strip_dest = ex_slack_dest\<lparr>br_GetBool := (\<lambda>k. k = ''StripNick'')\<rparr>"

subsection \<open>Facts about dispatch\<close>

lemma cacheGet_fst: "fst (cacheGet c k) = map_of c k"
  by (simp add: cacheGet_def split: option.splits)

lemma map_of_filter_key:
  "map_of (filter (\<lambda>e. fst e \<noteq> k) c) k' = (if k' = k then None else map_of c k')"
  by (induction c) auto

lemma map_of_moved:
  "map_of c k = Some v \<Longrightarrow> map_of (filter (\<lambda>e. fst e \<noteq> k) c @ [(k, v)]) k' = map_of c k'"
  by (simp add: map_add_def map_of_filter_key split: option.splits)

lemma cacheGet_map_of: "map_of (snd (cacheGet c k)) = map_of c"
proof (rule ext)
  fix k'
  show "map_of (snd (cacheGet c k)) k' = map_of c k'"
    by (cases "map_of c k")
      (auto simp: cacheGet_def map_add_def map_of_filter_key split: option.splits)
qed

lemma getDestMsgID_fst:
  "fst (getDestMsgID gw key dest channel) =
     (case map_of (gw_Messages gw) key of None \<Rightarrow> [] | Some IDs \<Rightarrow> idsLoop dest channel IDs)"
  by (simp add: getDestMsgID_def cacheGet_def split: option.splits)

lemma getDestMsgID_snd:
  "map_of (gw_Messages (snd (getDestMsgID gw key dest channel))) = map_of (gw_Messages gw)"
  using cacheGet_map_of [of "gw_Messages gw" key]
  by (auto simp: getDestMsgID_def split: option.splits prod.splits)

lemma getDestMsgID_again:
  "fst (getDestMsgID (snd (getDestMsgID gw key1 dest1 channel1)) key dest channel) =
   fst (getDestMsgID gw key dest channel)"
  by (simp add: getDestMsgID_fst getDestMsgID_snd)

lemma modifyAvatar_frame:
  "snd (modifyAvatar msg dest) = msg\<lparr>msg_Avatar := fst (modifyAvatar msg dest)\<rparr>"
  by (simp add: modifyAvatar_def Let_def)

lemma modifyUsername_frame:
  assumes "modifyUsername lib gw msg dest = Inr (nick, msg', logged)"
  shows "\<exists>br. gw_Bridges gw (msg_Account msg) = Some br \<and>
           msg' = msg\<lparr>msg_Protocol := br_Protocol br, msg_Username := msg_Username msg'\<rparr>"
  using assms
  by (auto simp: modifyUsername_def Let_def split: option.splits sum.splits if_splits)

text \<open>The two ways in which \<^verbatim>\<open>SendMessage\<close> returns.\<close>

definition selfEcho :: "'x Message \<Rightarrow> 'o ChannelInfo \<Rightarrow> bool" where
  "selfEcho rmsg channel \<longleftrightarrow>
     (if msg_Event rmsg = EventAvatarDownload
      then ch_ID channel \<noteq> getChannelID rmsg
      else ch_ID channel = getChannelID rmsg)"

lemma SendMessage_suppressed:
  assumes "selfEcho rmsg channel"
  shows "SendMessage lib gw send rmsg dest channel cp =
           Inr \<lparr>sr_mID = [], sr_err = None, sr_rmsg = rmsg, sr_gw = gw,
                sr_sent = [], sr_plugin = [], sr_logged = []\<rparr>"
  using assms by (simp add: SendMessage_def selfEcho_def Let_def)

lemma SendMessage_sends:
  assumes "\<not> selfEcho rmsg channel"
    and "SendMessage lib gw send rmsg dest channel cp = Inr r"
  shows "\<exists>br nick rmsg' logged m.
           gw_Bridges gw (msg_Account rmsg) = Some br \<and>
           modifyUsername lib gw (snd (modifyAvatar rmsg dest)) dest = Inr (nick, rmsg', logged) \<and>
           sr_rmsg r = rmsg' \<and> sr_sent r = [m] \<and>
           msg_ParentID m =
             (let looked = fst (getDestMsgID gw (msg_Protocol rmsg' @ '' '' @ cp) dest channel) in
              if looked \<noteq> [] then looked else if cp \<noteq> [] then cp
              else if msg_ParentID rmsg' \<noteq> [] then ''msg-parent-not-found'' else [])"
proof -
  from assms obtain nick rmsg' logged where
    mu: "modifyUsername lib gw (snd (modifyAvatar rmsg dest)) dest = Inr (nick, rmsg', logged)"
    by (auto simp: SendMessage_def selfEcho_def Let_def split: sum.splits prod.splits if_splits)
  from modifyUsername_frame [OF mu] obtain br where
    br: "gw_Bridges gw (msg_Account rmsg) = Some br"
    by (auto simp: modifyAvatar_def Let_def split: if_splits)
  obtain ident gw1 where g1:
    "getDestMsgID gw (msg_Protocol rmsg' @ '' '' @ msg_ID rmsg') dest channel = (ident, gw1)"
    by (cases "getDestMsgID gw (msg_Protocol rmsg' @ '' '' @ msg_ID rmsg') dest channel")
  obtain parent gw2 where g2:
    "getDestMsgID gw1 (msg_Protocol rmsg' @ '' '' @ cp) dest channel = (parent, gw2)"
    by (cases "getDestMsgID gw1 (msg_Protocol rmsg' @ '' '' @ cp) dest channel")
  have "parent = fst (getDestMsgID gw (msg_Protocol rmsg' @ '' '' @ cp) dest channel)"
    using getDestMsgID_again [of gw "msg_Protocol rmsg' @ '' '' @ msg_ID rmsg'" dest channel
        "msg_Protocol rmsg' @ '' '' @ cp" dest channel] g1 g2
    by simp
  with assms mu g1 g2 br show ?thesis
    by (auto simp: SendMessage_def selfEcho_def Let_def split: prod.splits if_splits)
qed

lemma delivered_Inr:
  assumes "delivered res \<noteq> []"
  shows "\<exists>r. res = Inr r \<and> sr_sent r = delivered res"
  using assms by (cases res) (auto simp: delivered_def)

lemma SendMessage_sends_original:
  assumes "\<not> selfEcho rmsg channel"
    and "SendMessage lib gw send rmsg dest channel cp = Inr r"
  shows "\<exists>br. gw_Bridges gw (msg_Account rmsg) = Some br \<and>
           sr_rmsg r = rmsg\<lparr>msg_Avatar := msg_Avatar (sr_rmsg r),
                             msg_Protocol := br_Protocol br,
                             msg_Username := msg_Username (sr_rmsg r)\<rparr>"
proof -
  from SendMessage_sends [OF assms] obtain nick rmsg' logged where
    mu: "modifyUsername lib gw (snd (modifyAvatar rmsg dest)) dest = Inr (nick, rmsg', logged)"
    and r: "sr_rmsg r = rmsg'"
    by blast
  define A where "A = fst (modifyAvatar rmsg dest)"
  define U where "U = msg_Username rmsg'"
  have a: "snd (modifyAvatar rmsg dest) = rmsg\<lparr>msg_Avatar := A\<rparr>"
    unfolding A_def by (rule modifyAvatar_frame)
  from modifyUsername_frame [OF mu] obtain br where
    br: "gw_Bridges gw (msg_Account (snd (modifyAvatar rmsg dest))) = Some br"
    and u: "rmsg' = (snd (modifyAvatar rmsg dest))\<lparr>msg_Protocol := br_Protocol br,
                                                    msg_Username := U\<rparr>"
    unfolding U_def by blast
  from u have e: "rmsg' = rmsg\<lparr>msg_Avatar := A, msg_Protocol := br_Protocol br,
                                msg_Username := U\<rparr>"
    by (simp add: a)
  have "msg_Avatar rmsg' = A"
    by (subst e) simp
  with e have "rmsg' = rmsg\<lparr>msg_Avatar := msg_Avatar rmsg', msg_Protocol := br_Protocol br,
                               msg_Username := msg_Username rmsg'\<rparr>"
    by (simp add: U_def)
  moreover from br have "gw_Bridges gw (msg_Account rmsg) = Some br"
    by (simp add: a)
  ultimately show ?thesis using r by blast
qed

subsection \<open>Claim C5\<close>

text \<open>
  C5. For every event kind other than avatar-download, \<^verbatim>\<open>SendMessage\<close> called with the
  channel whose ID equals the origin channel ID of the message returns the empty ID
  and no error without invoking the send capability of the destination: nothing is
  delivered, and the message and the gateway are as before. For the avatar-download
  event kind, a message is delivered only when the ID of the destination channel
  equals the origin channel ID.
\<close>

theorem self_echo_suppression:
  "(msg_Event rmsg \<noteq> EventAvatarDownload \<and> ch_ID channel = getChannelID rmsg \<longrightarrow>
      SendMessage lib gw send rmsg dest channel cp =
        Inr \<lparr>sr_mID = [], sr_err = None, sr_rmsg = rmsg, sr_gw = gw,
             sr_sent = [], sr_plugin = [], sr_logged = []\<rparr> \<and>
      delivered (SendMessage lib gw send rmsg dest channel cp) = [])
   \<and>
   (msg_Event rmsg = EventAvatarDownload \<and>
    delivered (SendMessage lib gw send rmsg dest channel cp) \<noteq> [] \<longrightarrow>
      ch_ID channel = getChannelID rmsg)"
proof (rule conjI)
  show "msg_Event rmsg \<noteq> EventAvatarDownload \<and> ch_ID channel = getChannelID rmsg \<longrightarrow>
      SendMessage lib gw send rmsg dest channel cp =
        Inr \<lparr>sr_mID = [], sr_err = None, sr_rmsg = rmsg, sr_gw = gw,
             sr_sent = [], sr_plugin = [], sr_logged = []\<rparr> \<and>
      delivered (SendMessage lib gw send rmsg dest channel cp) = []"
  proof
    assume "msg_Event rmsg \<noteq> EventAvatarDownload \<and> ch_ID channel = getChannelID rmsg"
    then have "selfEcho rmsg channel" by (simp add: selfEcho_def)
    from SendMessage_suppressed [OF this, of lib gw send dest cp]
    show "SendMessage lib gw send rmsg dest channel cp =
            Inr \<lparr>sr_mID = [], sr_err = None, sr_rmsg = rmsg, sr_gw = gw,
                 sr_sent = [], sr_plugin = [], sr_logged = []\<rparr> \<and>
          delivered (SendMessage lib gw send rmsg dest channel cp) = []"
      by (simp add: delivered_def)
  qed
next
  show "msg_Event rmsg = EventAvatarDownload \<and>
    delivered (SendMessage lib gw send rmsg dest channel cp) \<noteq> [] \<longrightarrow>
      ch_ID channel = getChannelID rmsg"
  proof
    assume a: "msg_Event rmsg = EventAvatarDownload \<and>
      delivered (SendMessage lib gw send rmsg dest channel cp) \<noteq> []"
    show "ch_ID channel = getChannelID rmsg"
    proof (rule ccontr)
      assume "ch_ID channel \<noteq> getChannelID rmsg"
      with a have "selfEcho rmsg channel" by (simp add: selfEcho_def)
      from SendMessage_suppressed [OF this, of lib gw send dest cp] a
      show False by (simp add: delivered_def)
    qed
  qed
qed

text \<open>
  The message \<open>msg50\<close> from \<open>#room\<close> of \<open>irc.a\<close> and that same channel as the
  destination: as an ordinary message nothing is delivered, as an avatar download one
  message is.
\<close>

theorem self_echo_suppression_witness:
  "delivered (SendMessage ex_lib ex_cache_gw ex_send (ex_reply []) ex_irc ex_room_irc []) = [] \<and>
   length (delivered (SendMessage ex_lib ex_cache_gw ex_send (ex_reply EventAvatarDownload)
                        ex_irc ex_room_irc [])) = 1 \<and>
   ch_ID ex_room_irc = getChannelID (ex_reply EventAvatarDownload)"
proof -
  have a: "msg_Event (ex_reply []) \<noteq> EventAvatarDownload \<and>
           ch_ID ex_room_irc = getChannelID (ex_reply [])"
    by (simp add: ex_reply_def ex_msg_def ex_room_irc_def getChannelID_def
          EventAvatarDownload_def)
  have b: "msg_Event (ex_reply EventAvatarDownload) = EventAvatarDownload"
    by (simp add: ex_reply_def ex_msg_def)
  have c: "length (delivered (SendMessage ex_lib ex_cache_gw ex_send
             (ex_reply EventAvatarDownload) ex_irc ex_room_irc [])) = 1"
    by code_simp
  then have d: "delivered (SendMessage ex_lib ex_cache_gw ex_send
             (ex_reply EventAvatarDownload) ex_irc ex_room_irc []) \<noteq> []"
    by auto
  from self_echo_suppression [of "ex_reply []" ex_room_irc ex_lib ex_cache_gw ex_send ex_irc "[]"] a
  have first: "delivered (SendMessage ex_lib ex_cache_gw ex_send (ex_reply []) ex_irc
                 ex_room_irc []) = []"
    by blast
  from self_echo_suppression [of "ex_reply EventAvatarDownload" ex_room_irc ex_lib ex_cache_gw
      ex_send ex_irc "[]"] b d
  have "ch_ID ex_room_irc = getChannelID (ex_reply EventAvatarDownload)"
    by blast
  with first c show ?thesis by simp
qed

subsection \<open>Claim C6\<close>

text \<open>
  C6, as the code has it. The \<^verbatim>\<open>ParentID\<close> of the copy handed to the destination is
  what the destination-identity lookup \<^verbatim>\<open>getDestMsgID\<close> finds under the key made of
  the protocol of the origin connection, a space and \<open>canonicalParentMsgID\<close>. When the
  lookup finds nothing, it is \<open>canonicalParentMsgID\<close> itself. When that is empty too
  and the origin message has a non-empty \<^verbatim>\<open>ParentID\<close>, it is the literal
  \<open>msg-parent-not-found\<close>; otherwise it is empty.
\<close>

theorem parent_id_of_copy:
  assumes "SendMessage lib gw send rmsg dest channel cp = Inr r"
    and "m \<in> set (sr_sent r)"
    and "gw_Bridges gw (msg_Account rmsg) = Some br"
  shows "msg_ParentID m =
           (let looked = fst (getDestMsgID gw (br_Protocol br @ '' '' @ cp) dest channel) in
            if looked \<noteq> [] then looked
            else if cp \<noteq> [] then cp
            else if msg_ParentID rmsg \<noteq> [] then ''msg-parent-not-found''
            else [])"
proof -
  have ne: "\<not> selfEcho rmsg channel"
  proof
    assume "selfEcho rmsg channel"
    from SendMessage_suppressed [OF this, of lib gw send dest cp] assms(1,2)
    show False by auto
  qed
  from SendMessage_sends [OF ne assms(1)] obtain m' where
    sent: "sr_sent r = [m']"
    and p: "msg_ParentID m' =
      (let looked = fst (getDestMsgID gw (msg_Protocol (sr_rmsg r) @ '' '' @ cp) dest channel) in
       if looked \<noteq> [] then looked else if cp \<noteq> [] then cp
       else if msg_ParentID (sr_rmsg r) \<noteq> [] then ''msg-parent-not-found'' else [])"
    by auto
  from sent assms(2) have m: "m = m'" by simp
  from SendMessage_sends_original [OF ne assms(1)] assms(3)
  have o: "sr_rmsg r = rmsg\<lparr>msg_Avatar := msg_Avatar (sr_rmsg r), msg_Protocol := br_Protocol br,
                             msg_Username := msg_Username (sr_rmsg r)\<rparr>"
    by auto
  have "msg_Protocol (sr_rmsg r) = br_Protocol br"
    by (subst o) simp
  moreover have "msg_ParentID (sr_rmsg r) = msg_ParentID rmsg"
    by (subst o) simp
  ultimately show ?thesis using p m by simp
qed

text \<open>
  The reply \<open>msg50\<close> sent on to the channel \<open>general\<close> of Slack. With no canonical
  parent the copy carries the literal \<open>msg-parent-not-found\<close>; with the canonical
  parent \<open>msg42\<close>, which the cache knows on Slack as \<open>17\<close>, it carries \<open>17\<close>.
\<close>

theorem parent_id_of_copy_witness:
  "map msg_ParentID (delivered (SendMessage ex_lib ex_cache_gw ex_send (ex_reply [])
      ex_slack_dest ex_general [])) = [''msg-parent-not-found''] \<and>
   map msg_ParentID (delivered (SendMessage ex_lib ex_cache_gw ex_send (ex_reply [])
      ex_slack_dest ex_general ''msg42'')) = [''17'']"
proof -
  have br: "gw_Bridges ex_cache_gw (msg_Account (ex_reply [])) = Some ex_irc"
    by (simp add: ex_cache_gw_def ex_reply_def ex_msg_def)
  have par: "msg_ParentID (ex_reply []) \<noteq> []"
    by (simp add: ex_reply_def)
  have one: "map msg_ParentID (delivered (SendMessage ex_lib ex_cache_gw ex_send (ex_reply [])
      ex_slack_dest ex_general [])) = [''msg-parent-not-found'']"
  proof -
    let ?X = "SendMessage ex_lib ex_cache_gw ex_send (ex_reply []) ex_slack_dest ex_general []"
    have n: "length (delivered ?X) = 1" by code_simp
    then have "delivered ?X \<noteq> []" by auto
    from delivered_Inr [OF this] obtain r where r: "?X = Inr r" "sr_sent r = delivered ?X"
      by blast
    from n r(2) have "length (sr_sent r) = Suc 0" by simp
    then obtain m where m: "sr_sent r = [m]"
      by (auto simp: length_Suc_conv)
    have look: "fst (getDestMsgID ex_cache_gw (br_Protocol ex_irc @ '' '' @ [])
                  ex_slack_dest ex_general) = []"
      by code_simp
    from parent_id_of_copy [OF r(1) _ br, of m] m look par
    have "msg_ParentID m = ''msg-parent-not-found''" by simp
    with m r(2) show ?thesis by simp
  qed
  have two: "map msg_ParentID (delivered (SendMessage ex_lib ex_cache_gw ex_send (ex_reply [])
      ex_slack_dest ex_general ''msg42'')) = [''17'']"
  proof -
    let ?X = "SendMessage ex_lib ex_cache_gw ex_send (ex_reply []) ex_slack_dest ex_general ''msg42''"
    have n: "length (delivered ?X) = 1" by code_simp
    then have "delivered ?X \<noteq> []" by auto
    from delivered_Inr [OF this] obtain r where r: "?X = Inr r" "sr_sent r = delivered ?X"
      by blast
    from n r(2) have "length (sr_sent r) = Suc 0" by simp
    then obtain m where m: "sr_sent r = [m]"
      by (auto simp: length_Suc_conv)
    have look: "fst (getDestMsgID ex_cache_gw (br_Protocol ex_irc @ '' '' @ ''msg42'')
                  ex_slack_dest ex_general) = ''17''"
      by code_simp
    from parent_id_of_copy [OF r(1) _ br, of m] m look
    have "msg_ParentID m = ''17''" by simp
    with m r(2) show ?thesis by simp
  qed
  from one two show ?thesis by simp
qed

text \<open>
  The claim as it was stated gives the literal whenever the lookup finds nothing and
  the origin message has a parent. That fails: the reply \<open>msg50\<close> has the parent
  \<open>msg41\<close>, the lookup for the canonical parent \<open>msg41\<close> finds nothing, and the copy
  carries \<open>msg41\<close>, not the literal.
\<close>

theorem parent_id_of_copy_counterexample:
  "msg_ParentID (ex_reply []) = ''msg41'' \<and>
   fst (getDestMsgID ex_cache_gw (''irc'' @ '' '' @ ''msg41'') ex_slack_dest ex_general) = [] \<and>
   map msg_ParentID (delivered (SendMessage ex_lib ex_cache_gw ex_send (ex_reply [])
      ex_slack_dest ex_general ''msg41'')) = [''msg41'']"
  by code_simp

subsection \<open>Claim C9\<close>

text \<open>
  A further destination for the examples, with a format and an icon URL of its own,
  and two calls of \<^verbatim>\<open>SendMessage\<close> in a row for one inbound message: the second call
  gets what the first one left behind the pointer \<^verbatim>\<open>rmsg\<close>.
\<close>

definition ex_other_dest :: Bridge where
  "ex_other_dest = (ex_bridge ''telegram.y'' ''telegram'' ''y'')\<lparr>br_GetString :=
     (\<lambda>k. if k = ''IconURL'' then ''http://y/{NICK}.png''
          else if k = ''RemoteNickFormat'' then ''{NICK}'' else [])\<rparr>"

definition ex_other_channel :: "unit ChannelInfo" where
  "ex_other_channel = \<lparr>ch_Name = ''chat'', ch_Direction = ''inout'', ch_ID = ''chattelegram.y'',
     ch_Options = (), ch_Account = ''telegram.y'', ch_SameChannel = [''gw'' \<mapsto> False]\<rparr>"

definition SendMessageTwice ::
  "'re Lib \<Rightarrow> 'o Gateway \<Rightarrow> ('x Message \<Rightarrow> string \<times> string option) \<Rightarrow> 'x Message \<Rightarrow>
   Bridge \<Rightarrow> 'o ChannelInfo \<Rightarrow> Bridge \<Rightarrow> 'o ChannelInfo \<Rightarrow> string \<Rightarrow> panic + ('o, 'x) Sent" where
  "SendMessageTwice lib gw send rmsg dest1 channel1 dest2 channel2 cp =
     (case SendMessage lib gw send rmsg dest1 channel1 cp of
        Inl p \<Rightarrow> Inl p
      | Inr r \<Rightarrow> SendMessage lib (sr_gw r) send (sr_rmsg r) dest2 channel2 cp)"

text \<open>
  C9. The claim is that producing the copy for a destination leaves every field of the
  inbound original unchanged. \<^verbatim>\<open>SendMessage\<close> does copy the message and does assign
  what \<^verbatim>\<open>modifyAvatar\<close> and \<^verbatim>\<open>modifyUsername\<close> return to the copy, but it hands both
  the pointer to the original, and they write the avatar and the user name there.
  The code does not keep the claim at this input: the reply from \<open>al.ice\<close>, with no
  avatar, is sent on to the Slack connection that strips nicks. Afterwards the
  original has the icon URL of the Slack connection as its avatar and the stripped
  user name. A destination served alone gets the user name \<open>al.ice\<close> and the avatar
  made from its own icon URL; served after Slack, it gets the stripped name and the
  avatar of Slack.
\<close>

theorem original_written_by_dispatch:
  "msg_Avatar ex_raw = [] \<and> msg_Username ex_raw = ''al.ice'' \<and>
   map_option msg_Avatar (originalAfter (SendMessage ex_lib ex_cache_gw ex_send ex_raw
      ex_strip_dest ex_general ''msg41'')) = Some ''http://x/al.ice.png'' \<and>
   map_option msg_Username (originalAfter (SendMessage ex_lib ex_cache_gw ex_send ex_raw
      ex_strip_dest ex_general ''msg41'')) = Some ''alice'' \<and>
   map msg_Username (delivered (SendMessage ex_lib ex_cache_gw ex_send ex_raw
      ex_other_dest ex_other_channel ''msg41'')) = [''al.ice''] \<and>
   map msg_Avatar (delivered (SendMessage ex_lib ex_cache_gw ex_send ex_raw
      ex_other_dest ex_other_channel ''msg41'')) = [''http://y/al.ice.png''] \<and>
   map msg_Username (delivered (SendMessageTwice ex_lib ex_cache_gw ex_send ex_raw
      ex_strip_dest ex_general ex_other_dest ex_other_channel ''msg41'')) = [''alice''] \<and>
   map msg_Avatar (delivered (SendMessageTwice ex_lib ex_cache_gw ex_send ex_raw
      ex_strip_dest ex_general ex_other_dest ex_other_channel ''msg41'')) = [''http://x/al.ice.png'']"
  by code_simp

section \<open>The transform pipeline\<close>

text \<open>
  The scripting hook reads a file and hands it to the Tengo runtime. Both are outside
  the gateway and are parameters: reading a file gives an error or its content;
  compiling the content with the four inputs \<^verbatim>\<open>msgText\<close>, \<^verbatim>\<open>msgUsername\<close>,
  \<^verbatim>\<open>msgAccount\<close> and \<^verbatim>\<open>msgChannel\<close> gives an error or a compiled script; running
  that gives an error or the values of \<^verbatim>\<open>msgText\<close> and \<^verbatim>\<open>msgUsername\<close> after the run.
\<close>

record 'c Tengo =
  ioutil_ReadFile :: "string \<Rightarrow> string + string"
  script_Compile :: "string \<Rightarrow> string \<Rightarrow> string \<Rightarrow> string \<Rightarrow> string \<Rightarrow> string + 'c"
  compiled_Run :: "'c \<Rightarrow> string + (string \<times> string)"

text \<open>\<^verbatim>\<open>modifyMessageTengo\<close>: the error it returns, and the message as it leaves it.\<close>

definition modifyMessageTengo ::
  "'c Tengo \<Rightarrow> string \<Rightarrow> 'x Message \<Rightarrow> string option \<times> 'x Message" where
  "modifyMessageTengo tengo filename msg =
     (if filename = [] then (None, msg)
      else case ioutil_ReadFile tengo filename of
             Inl err \<Rightarrow> (Some err, msg)
           | Inr res \<Rightarrow>
               (case script_Compile tengo res (msg_Text msg) (msg_Username msg)
                       (msg_Account msg) (msg_Channel msg) of
                  Inl err \<Rightarrow> (Some err, msg)
                | Inr c \<Rightarrow>
                    (case compiled_Run tengo c of
                       Inl err \<Rightarrow> (Some err, msg)
                     | Inr (text, username) \<Rightarrow>
                         (None, msg\<lparr>msg_Text := text, msg_Username := username\<rparr>))))"

text \<open>
  \<^verbatim>\<open>modifyMessage\<close>. \<open>emoji\<close> is \<^verbatim>\<open>emojilib.Replace\<close>; \<open>extractNicks\<close> is the method
  \<^verbatim>\<open>handleExtractNicks\<close> of the gateway, which another file of the package defines.
  The configuration accessor of a connection that the gateway does not know is a nil
  dereference. The result is the message as the call leaves it and the lines logged.
\<close>

definition modifyMessage ::
  "'re Lib \<Rightarrow> 'c Tengo \<Rightarrow> (string \<Rightarrow> string) \<Rightarrow> ('x Message \<Rightarrow> 'x Message) \<Rightarrow>
   'o Gateway \<Rightarrow> 'x Message \<Rightarrow> panic + ('x Message \<times> logline list)" where
  "modifyMessage lib tengo emoji extractNicks gw msg =
     (let (err, msg) = modifyMessageTengo tengo (gw_TengoModifyMessage gw) msg;
          logged = (case err of None \<Rightarrow> [] | Some e \<Rightarrow> [TengoModifyMessageFailed e]);
          msg = msg\<lparr>msg_Text := emoji (msg_Text msg)\<rparr>
      in case gw_Bridges gw (msg_Account msg) of
           None \<Rightarrow> Inl NilBridge
         | Some br \<Rightarrow>
             (case replaceLoop lib (msg_Account msg) (msg_Text msg)
                     (br_GetStringSlice2D br ''ReplaceMessages'') of
                Inl p \<Rightarrow> Inl p
              | Inr (text, logged') \<Rightarrow>
                  let msg = msg\<lparr>msg_Text := text\<rparr>;
                      msg = extractNicks msg;
                      msg = (if msg_Protocol msg \<noteq> apiProtocol
                             then msg\<lparr>msg_Gateway := gw_Name gw\<rparr> else msg)
                  in Inr (msg, logged @ logged')))"

text \<open>
  The pipeline result with one more line at the head of its log; a panic stays what
  it is.
\<close>

definition alsoLogged ::
  "logline \<Rightarrow> panic + ('x Message \<times> logline list) \<Rightarrow> panic + ('x Message \<times> logline list)" where
  "alsoLogged l res = (case res of Inl p \<Rightarrow> Inl p | Inr (m, logged) \<Rightarrow> Inr (m, l # logged))"

text \<open>
  A runtime for the examples: the file \<open>ok.tengo\<close> appends an exclamation mark to the
  text, \<open>bad.tengo\<close> does not compile, \<open>fails.tengo\<close> fails when run, and no other file
  exists. A compiled script is the source with the text and the user name it got.
\<close>

definition ex_tengo :: "(string \<times> string \<times> string) Tengo" where
  "ex_tengo = \<lparr>
     ioutil_ReadFile = (\<lambda>f. if f = ''ok.tengo'' \<or> f = ''bad.tengo'' \<or> f = ''fails.tengo''
                            then Inr f else Inl ''no such file''),
     script_Compile = (\<lambda>src text username account channel.
                         if src = ''bad.tengo'' then Inl ''parse error''
                         else Inr (src, text, username)),
     compiled_Run = (\<lambda>(src, text, username).
                       if src = ''fails.tengo'' then Inl ''runtime error''
                       else Inr (text @ ''!'', username))\<rparr>"

definition ex_hook_gw :: "string \<Rightarrow> unit Gateway" where
  "ex_hook_gw filename = ex_cache_gw\<lparr>gw_TengoModifyMessage := filename\<rparr>"

subsection \<open>Claim C8\<close>

text \<open>
  C8. For every message and every failure of the scripting hook (the script file
  cannot be read, the script does not compile, or its run fails),
  \<^verbatim>\<open>modifyMessageTengo\<close> returns the error and leaves the message as it was, text and
  user name included. \<^verbatim>\<open>modifyMessage\<close> logs the error and goes on: its result is the
  result of the pipeline with no script configured, with the one line more in the
  log, so the failure adds no fatal outcome.
\<close>

theorem scripting_hook_failure_is_noop:
  "(filename \<noteq> [] \<and> ioutil_ReadFile tengo filename = Inl e
      \<longrightarrow> modifyMessageTengo tengo filename msg = (Some e, msg))
   \<and>
   (filename \<noteq> [] \<and> ioutil_ReadFile tengo filename = Inr res \<and>
    script_Compile tengo res (msg_Text msg) (msg_Username msg) (msg_Account msg) (msg_Channel msg)
      = Inl e
      \<longrightarrow> modifyMessageTengo tengo filename msg = (Some e, msg))
   \<and>
   (filename \<noteq> [] \<and> ioutil_ReadFile tengo filename = Inr res \<and>
    script_Compile tengo res (msg_Text msg) (msg_Username msg) (msg_Account msg) (msg_Channel msg)
      = Inr c \<and>
    compiled_Run tengo c = Inl e
      \<longrightarrow> modifyMessageTengo tengo filename msg = (Some e, msg))
   \<and>
   (modifyMessageTengo tengo (gw_TengoModifyMessage gw) msg = (Some err, msg')
      \<longrightarrow> msg' = msg \<and>
          modifyMessage lib tengo emoji extractNicks gw msg =
            alsoLogged (TengoModifyMessageFailed err)
              (modifyMessage lib tengo emoji extractNicks (gw\<lparr>gw_TengoModifyMessage := []\<rparr>) msg))"
proof (intro conjI)
  show "filename \<noteq> [] \<and> ioutil_ReadFile tengo filename = Inl e
      \<longrightarrow> modifyMessageTengo tengo filename msg = (Some e, msg)"
    by (simp add: modifyMessageTengo_def)
next
  show "filename \<noteq> [] \<and> ioutil_ReadFile tengo filename = Inr res \<and>
    script_Compile tengo res (msg_Text msg) (msg_Username msg) (msg_Account msg) (msg_Channel msg)
      = Inl e
      \<longrightarrow> modifyMessageTengo tengo filename msg = (Some e, msg)"
    by (simp add: modifyMessageTengo_def)
next
  show "filename \<noteq> [] \<and> ioutil_ReadFile tengo filename = Inr res \<and>
    script_Compile tengo res (msg_Text msg) (msg_Username msg) (msg_Account msg) (msg_Channel msg)
      = Inr c \<and>
    compiled_Run tengo c = Inl e
      \<longrightarrow> modifyMessageTengo tengo filename msg = (Some e, msg)"
    by (simp add: modifyMessageTengo_def)
next
  show "modifyMessageTengo tengo (gw_TengoModifyMessage gw) msg = (Some err, msg')
      \<longrightarrow> msg' = msg \<and>
          modifyMessage lib tengo emoji extractNicks gw msg =
            alsoLogged (TengoModifyMessageFailed err)
              (modifyMessage lib tengo emoji extractNicks (gw\<lparr>gw_TengoModifyMessage := []\<rparr>) msg)"
  proof
    assume a: "modifyMessageTengo tengo (gw_TengoModifyMessage gw) msg = (Some err, msg')"
    then have same: "msg' = msg"
      by (auto simp: modifyMessageTengo_def split: if_splits sum.splits prod.splits)
    have none: "modifyMessageTengo tengo [] msg = (None, msg)"
      by (simp add: modifyMessageTengo_def)
    have "modifyMessage lib tengo emoji extractNicks gw msg =
            alsoLogged (TengoModifyMessageFailed err)
              (modifyMessage lib tengo emoji extractNicks (gw\<lparr>gw_TengoModifyMessage := []\<rparr>) msg)"
      using a
      by (simp add: modifyMessage_def alsoLogged_def same none Let_def
            split: option.splits sum.splits prod.splits)
    with same show "msg' = msg \<and>
          modifyMessage lib tengo emoji extractNicks gw msg =
            alsoLogged (TengoModifyMessageFailed err)
              (modifyMessage lib tengo emoji extractNicks (gw\<lparr>gw_TengoModifyMessage := []\<rparr>) msg)"
      by simp
  qed
qed

text \<open>
  The reply \<open>msg50\<close> under the three failures: the message is as before each time, and
  with the failing script configured the pipeline returns the message with the one
  line in the log. With the script that works, the text changes.
\<close>

theorem scripting_hook_failure_is_noop_witness:
  "modifyMessageTengo ex_tengo ''missing.tengo'' (ex_reply []) =
     (Some ''no such file'', ex_reply []) \<and>
   modifyMessageTengo ex_tengo ''bad.tengo'' (ex_reply []) =
     (Some ''parse error'', ex_reply []) \<and>
   modifyMessageTengo ex_tengo ''fails.tengo'' (ex_reply []) =
     (Some ''runtime error'', ex_reply []) \<and>
   modifyMessage ex_lib ex_tengo (\<lambda>s. s) (\<lambda>m. m) (ex_hook_gw ''fails.tengo'') (ex_reply []) =
     Inr (ex_reply [], [TengoModifyMessageFailed ''runtime error'']) \<and>
   modifyMessage ex_lib ex_tengo (\<lambda>s. s) (\<lambda>m. m) (ex_hook_gw ''ok.tengo'') (ex_reply []) =
     Inr ((ex_reply [])\<lparr>msg_Text := ''hello!''\<rparr>, [])"
proof -
  let ?m = "ex_reply []"
  let ?c = "(''fails.tengo'', ''hello'', ''alice'')"
  note inst = scripting_hook_failure_is_noop [where tengo = ex_tengo and msg = ?m
      and lib = ex_lib and emoji = "\<lambda>s. s" and extractNicks = "\<lambda>m. m"
      and gw = "ex_hook_gw ''fails.tengo''" and err = "''runtime error''" and msg' = ?m]
  have r1: "''missing.tengo'' \<noteq> [] \<and>
            ioutil_ReadFile ex_tengo ''missing.tengo'' = Inl ''no such file''"
    by (simp add: ex_tengo_def)
  have r2: "''bad.tengo'' \<noteq> [] \<and> ioutil_ReadFile ex_tengo ''bad.tengo'' = Inr ''bad.tengo'' \<and>
            script_Compile ex_tengo ''bad.tengo'' (msg_Text ?m) (msg_Username ?m)
              (msg_Account ?m) (msg_Channel ?m) = Inl ''parse error''"
    by (simp add: ex_tengo_def)
  have r3: "''fails.tengo'' \<noteq> [] \<and>
            ioutil_ReadFile ex_tengo ''fails.tengo'' = Inr ''fails.tengo'' \<and>
            script_Compile ex_tengo ''fails.tengo'' (msg_Text ?m) (msg_Username ?m)
              (msg_Account ?m) (msg_Channel ?m) = Inr ?c \<and>
            compiled_Run ex_tengo ?c = Inl ''runtime error''"
    by (simp add: ex_tengo_def ex_reply_def ex_msg_def)
  from inst [where filename = "''missing.tengo''" and e = "''no such file''"] r1
  have m1: "modifyMessageTengo ex_tengo ''missing.tengo'' ?m = (Some ''no such file'', ?m)"
    by blast
  from inst [where filename = "''bad.tengo''" and e = "''parse error''" and res = "''bad.tengo''"] r2
  have m2: "modifyMessageTengo ex_tengo ''bad.tengo'' ?m = (Some ''parse error'', ?m)"
    by blast
  from inst [where filename = "''fails.tengo''" and e = "''runtime error''"
      and res = "''fails.tengo''" and c = ?c] r3
  have m3: "modifyMessageTengo ex_tengo ''fails.tengo'' ?m = (Some ''runtime error'', ?m)"
    by blast
  have f: "gw_TengoModifyMessage (ex_hook_gw ''fails.tengo'') = ''fails.tengo''"
    by (simp add: ex_hook_gw_def)
  have base: "modifyMessage ex_lib ex_tengo (\<lambda>s. s) (\<lambda>m. m)
                ((ex_hook_gw ''fails.tengo'')\<lparr>gw_TengoModifyMessage := []\<rparr>) ?m = Inr (?m, [])"
    by code_simp
  from inst [where filename = "''fails.tengo''" and e = "''runtime error''"
      and res = "''fails.tengo''" and c = ?c] m3 f
  have "modifyMessage ex_lib ex_tengo (\<lambda>s. s) (\<lambda>m. m) (ex_hook_gw ''fails.tengo'') ?m =
          alsoLogged (TengoModifyMessageFailed ''runtime error'')
            (modifyMessage ex_lib ex_tengo (\<lambda>s. s) (\<lambda>m. m)
               ((ex_hook_gw ''fails.tengo'')\<lparr>gw_TengoModifyMessage := []\<rparr>) ?m)"
    by simp
  then have m4: "modifyMessage ex_lib ex_tengo (\<lambda>s. s) (\<lambda>m. m) (ex_hook_gw ''fails.tengo'') ?m =
                   Inr (?m, [TengoModifyMessageFailed ''runtime error''])"
    by (simp add: base alsoLogged_def)
  have m5: "modifyMessage ex_lib ex_tengo (\<lambda>s. s) (\<lambda>m. m) (ex_hook_gw ''ok.tengo'') ?m =
              Inr (?m\<lparr>msg_Text := ''hello!''\<rparr>, [])"
    by code_simp
  from m1 m2 m3 m4 m5 show ?thesis by simp
qed

end
